theory Spec2Isabelle
  imports Complex_Main "HOL-Library.Char_ord" "HOL-Library.List_Lexorder" "HOL-Library.Multiset"
    "HOL-Library.Log_Nat"
begin

section \<open>JavaScript values used by the learning core\<close>

text \<open>
  The repository is plain JavaScript. Three source units are embedded here:
  \<^item> \<^verbatim>\<open>src/modules/learning-system.js\<close> (class \<^verbatim>\<open>LearningSystem\<close>),
  \<^item> the \<^verbatim>\<open>PatternExtractor\<close> class (\<^verbatim>\<open>src/unnamed/part_002\<close>),
  \<^item> the \<^verbatim>\<open>CommunityShare\<close> class (second document of \<^verbatim>\<open>src/examples/README.md\<close>).

  Conventions of the embedding.
  \<^item> A property that may be absent (\<^verbatim>\<open>undefined\<close>) is an \<open>option\<close>; \<open>None\<close> is
    \<^verbatim>\<open>undefined\<close>.
  \<^item> A thrown \<^verbatim>\<open>TypeError\<close> is the left injection of a sum.
  \<^item> Strings are \<open>char list\<close>; case conversion and white space are the ASCII ones.
  \<^item> Method names lose their leading underscore (\<^verbatim>\<open>_classifyError\<close> is
    \<open>classifyError\<close>); a name that clashes with a library constant gets a suffix.
  \<^item> \<^verbatim>\<open>Date.now()\<close> and \<^verbatim>\<open>_generateId()\<close> are inputs of each operation: the
    current time is an integer of milliseconds and identifiers come from a counter kept
    beside the object's fields.
\<close>

subsection \<open>Numbers\<close>

text \<open>
  A JavaScript number is a finite value, an infinity or \<^verbatim>\<open>NaN\<close>. Finite values are
  the rationals they denote. The operations of this subsection do not round: the learning
  system computes counts and ratios of two array lengths with them. The Trending Scorer
  multiplies a stored fraction by 100 and has rounding operations of its own, defined in
  its section. Signed zeros are not modelled. The literals \<^verbatim>\<open>0.3\<close> and \<^verbatim>\<open>0.1\<close> are the rationals \<open>3/10\<close> and \<open>1/10\<close>.
  For a ratio \<open>a / b\<close> of two array lengths the test \<^verbatim>\<open>a / b > 0.3\<close> on doubles agrees
  with the exact one: rounding is monotone, \<open>3/10\<close> rounds to the literal, and a ratio
  other than \<open>3/10\<close> differs from it by at least \<open>1 / (10 * b)\<close>, far more than half a
  unit in the last place. Division of a non-zero finite number by zero takes the sign of
  the numerator, zero being positive.
\<close>

datatype jsnum = Fin rat | PInf | NInf | NaN

fun js_neg :: "jsnum \<Rightarrow> jsnum" where
  "js_neg (Fin a) = Fin (- a)"
| "js_neg PInf = NInf"
| "js_neg NInf = PInf"
| "js_neg NaN = NaN"

fun js_add :: "jsnum \<Rightarrow> jsnum \<Rightarrow> jsnum" where
  "js_add NaN _ = NaN"
| "js_add _ NaN = NaN"
| "js_add (Fin a) (Fin b) = Fin (a + b)"
| "js_add PInf NInf = NaN"
| "js_add NInf PInf = NaN"
| "js_add PInf _ = PInf"
| "js_add _ PInf = PInf"
| "js_add NInf _ = NInf"
| "js_add _ NInf = NInf"

definition js_sub :: "jsnum \<Rightarrow> jsnum \<Rightarrow> jsnum" where
  "js_sub x y = js_add x (js_neg y)"

text \<open>The sign of a number as seen by multiplication and division: \<open>None\<close> for \<^verbatim>\<open>NaN\<close>.\<close>

fun js_sign :: "jsnum \<Rightarrow> int option" where
  "js_sign (Fin a) = Some (if a < 0 then - 1 else if a = 0 then 0 else 1)"
| "js_sign PInf = Some 1"
| "js_sign NInf = Some (- 1)"
| "js_sign NaN = None"

definition js_signed_inf :: "int \<Rightarrow> jsnum" where
  "js_signed_inf s = (if s < 0 then NInf else PInf)"

fun js_mul :: "jsnum \<Rightarrow> jsnum \<Rightarrow> jsnum" where
  "js_mul (Fin a) (Fin b) = Fin (a * b)"
| "js_mul x y =
     (case (js_sign x, js_sign y) of
        (Some s, Some t) \<Rightarrow> (if s * t = 0 then NaN else js_signed_inf (s * t))
      | _ \<Rightarrow> NaN)"

fun js_div :: "jsnum \<Rightarrow> jsnum \<Rightarrow> jsnum" where
  "js_div (Fin a) (Fin b) =
     (if b \<noteq> 0 then Fin (a / b)
      else if a = 0 then NaN
      else if a < 0 then NInf else PInf)"
| "js_div (Fin a) PInf = Fin 0"
| "js_div (Fin a) NInf = Fin 0"
| "js_div PInf (Fin b) = (if b < 0 then NInf else PInf)"
| "js_div NInf (Fin b) = (if b < 0 then PInf else NInf)"
| "js_div _ _ = NaN"

fun js_gt :: "jsnum \<Rightarrow> jsnum \<Rightarrow> bool" where
  "js_gt NaN _ = False"
| "js_gt _ NaN = False"
| "js_gt (Fin a) (Fin b) = (b < a)"
| "js_gt PInf PInf = False"
| "js_gt PInf _ = True"
| "js_gt _ PInf = False"
| "js_gt NInf _ = False"
| "js_gt _ NInf = True"

fun js_abs :: "jsnum \<Rightarrow> jsnum" where
  "js_abs (Fin a) = Fin \<bar>a\<bar>"
| "js_abs PInf = PInf"
| "js_abs NInf = PInf"
| "js_abs NaN = NaN"

text \<open>\<^verbatim>\<open>ToNumber\<close> of a possibly absent numeric property: \<^verbatim>\<open>undefined\<close> becomes \<^verbatim>\<open>NaN\<close>.\<close>

fun toNumber :: "jsnum option \<Rightarrow> jsnum" where
  "toNumber None = NaN"
| "toNumber (Some x) = x"

text \<open>Truthiness of a possibly absent number: \<^verbatim>\<open>undefined\<close>, \<^verbatim>\<open>0\<close> and \<^verbatim>\<open>NaN\<close> are falsy.\<close>

fun truthyNum :: "jsnum option \<Rightarrow> bool" where
  "truthyNum None = False"
| "truthyNum (Some (Fin a)) = (a \<noteq> 0)"
| "truthyNum (Some NaN) = False"
| "truthyNum (Some _) = True"

text \<open>\<^verbatim>\<open>x || 0\<close> on a possibly absent number.\<close>

definition orZero :: "jsnum option \<Rightarrow> jsnum" where
  "orZero x = (if truthyNum x then toNumber x else Fin 0)"

subsection \<open>Strings\<close>

definition toLowerChar :: "char \<Rightarrow> char" where
  "toLowerChar c =
     (case map_of (zip ''ABCDEFGHIJKLMNOPQRSTUVWXYZ'' ''abcdefghijklmnopqrstuvwxyz'') c of
        Some l \<Rightarrow> l
      | None \<Rightarrow> c)"

definition toLowerCase :: "string \<Rightarrow> string" where
  "toLowerCase s = map toLowerChar s"

fun startsWith :: "string \<Rightarrow> string \<Rightarrow> bool" where
  "startsWith s [] = True"
| "startsWith [] (c # cs) = False"
| "startsWith (x # xs) (c # cs) = (x = c \<and> startsWith xs cs)"

text \<open>\<^verbatim>\<open>s.includes(sub)\<close>: \<open>sub\<close> occurs in \<open>s\<close> at some position.\<close>

fun includes_str :: "string \<Rightarrow> string \<Rightarrow> bool" where
  "includes_str [] sub = (sub = [])"
| "includes_str (x # xs) sub = (startsWith (x # xs) sub \<or> includes_str xs sub)"

text \<open>The white space of \<^verbatim>\<open>\s\<close> within ASCII: space, tab, LF, VT, FF, CR.\<close>

definition isSpace :: "char \<Rightarrow> bool" where
  "isSpace c = (c \<in> set [CHR '' '', CHR 0x09, CHR 0x0A, CHR 0x0B, CHR 0x0C, CHR 0x0D])"

text \<open>
  \<^verbatim>\<open>s.split(/\s+/)\<close>: the pieces between maximal runs of white space. A run at the start
  or at the end of the string leaves an empty piece there, as in JavaScript. The flag says
  that the previous character was white space; \<open>cur\<close> is the piece being read.
\<close>

fun splitWs :: "bool \<Rightarrow> string \<Rightarrow> string \<Rightarrow> string list" where
  "splitWs inws cur [] = [cur]"
| "splitWs inws cur (c # cs) =
     (if isSpace c then (if inws then splitWs True cur cs else cur # splitWs True [] cs)
      else splitWs False (cur @ [c]) cs)"

definition split_ws :: "string \<Rightarrow> string list" where
  "split_ws s = splitWs False [] s"

section \<open>Error Classifier\<close>

datatype js_error = TypeError

datatype error_kind =
  PermissionError | MissingDependency | Timeout | AuthenticationError | SyntaxError | UnknownError

text \<open>
  \<^verbatim>\<open>_classifyError(error)\<close>. The argument is \<open>Some\<close> of a string, or \<open>None\<close> when the
  caller's \<^verbatim>\<open>error\<close> property is absent or is not a string: \<^verbatim>\<open>error.toLowerCase()\<close>
  then throws a \<^verbatim>\<open>TypeError\<close>.
\<close>

definition classifyError :: "string option \<Rightarrow> js_error + error_kind" where
  "classifyError error =
     (case error of
        None \<Rightarrow> Inl TypeError
      | Some e \<Rightarrow>
          (let errorLower = toLowerCase e in
           if includes_str errorLower ''permission'' \<or> includes_str errorLower ''access denied''
           then Inr PermissionError
           else if includes_str errorLower ''not found'' \<or> includes_str errorLower ''missing''
           then Inr MissingDependency
           else if includes_str errorLower ''timeout'' \<or> includes_str errorLower ''timed out''
           then Inr Timeout
           else if includes_str errorLower ''api'' \<and>
                   (includes_str errorLower ''key'' \<or> includes_str errorLower ''auth'')
           then Inr AuthenticationError
           else if includes_str errorLower ''syntax'' \<or> includes_str errorLower ''parse''
           then Inr SyntaxError
           else Inr UnknownError))"

section \<open>Similarity Utility\<close>

text \<open>
  \<^verbatim>\<open>_calculateSimilarity(str1, str2)\<close>. \<^verbatim>\<open>!str\<close> holds for an absent and for an empty
  string. \<open>intersection\<close> is \<^verbatim>\<open>words1.filter(w => words2.includes(w))\<close>, which keeps
  every occurrence of a word of \<open>words1\<close>; \<open>union\<close> is the array of a \<^verbatim>\<open>Set\<close>, of which
  only the length is read, so the order \<open>remdups\<close> leaves is immaterial.
\<close>

definition falsyStr :: "string option \<Rightarrow> bool" where
  "falsyStr s = (s = None \<or> s = Some [])"

definition calculateSimilarity :: "string option \<Rightarrow> string option \<Rightarrow> jsnum" where
  "calculateSimilarity str1 str2 =
     (if falsyStr str1 \<or> falsyStr str2 then Fin 0
      else
        (let s1 = toLowerCase (the str1);
             s2 = toLowerCase (the str2);
             words1 = split_ws s1;
             words2 = split_ws s2;
             intersection = filter (\<lambda>w. w \<in> set words2) words1;
             union = remdups (words1 @ words2)
         in if length union > 0
            then js_div (Fin (of_nat (length intersection))) (Fin (of_nat (length union)))
            else Fin 0))"

section \<open>Workflow Recorder and Pattern Miner\<close>

subsection \<open>Objects\<close>

text \<open>
  A parameter value of a step, as far as \<^verbatim>\<open>typeof\<close> tells values apart.
\<close>

datatype jsval = VString string | VNumber jsnum | VBoolean bool | VObject | VNull | VUndefined

record step =
  tool :: "string option"
  description :: "string option"
  parameters :: "(string \<times> jsval) list option"
  code :: "string option"
  stepDuration :: "jsnum option"

text \<open>The free-form \<^verbatim>\<open>context\<close> object of a workflow; the code reads two of its keys.\<close>

record wf_context =
  goal :: "string option"
  industry :: "string option"

text \<open>
  The object a caller passes to \<^verbatim>\<open>recordSuccess\<close> or to \<^verbatim>\<open>extractFromWorkflow\<close>. Every
  property may be absent. \<^verbatim>\<open>recordSuccess\<close> reads \<^verbatim>\<open>workflow.capabilities\<close>, while
  \<^verbatim>\<open>extractFromWorkflow\<close> reads \<^verbatim>\<open>workflow.capabilitiesUsed\<close>.
\<close>

record workflow =
  toolsUsed :: "string list option"
  steps :: "step list option"
  duration :: "jsnum option"
  outcome :: "string option"
  capabilities :: "string list option"
  capabilitiesUsed :: "string list option"
  wcontext :: "wf_context option"

record workflow_record =
  rec_id :: nat
  rec_timestamp :: int
  rec_toolsUsed :: "string list"
  rec_steps :: "step list"
  rec_duration :: "jsnum option"
  rec_outcome :: "string option"
  rec_capabilitiesUsed :: "string list"
  rec_context :: wf_context

text \<open>The object a caller passes to \<^verbatim>\<open>recordFailure\<close>.\<close>

record failure =
  f_toolsUsed :: "string list option"
  f_error :: "string option"
  f_step :: "string option"
  f_context :: "wf_context option"
  f_suggestion :: "string option"

text \<open>
  An entry of \<^verbatim>\<open>failedAttempts\<close>. \<^verbatim>\<open>recordFailure\<close> never sets
  \<^verbatim>\<open>occurrenceCount\<close> on it, but \<^verbatim>\<open>_learnFromFailure\<close> reads that property, so it is a
  field here, \<open>None\<close> on every entry the code creates.
\<close>

record failure_record =
  fr_id :: nat
  fr_timestamp :: int
  fr_toolsUsed :: "string list"
  fr_error :: "string option"
  fr_step :: "string option"
  fr_context :: wf_context
  fr_suggestion :: "string option"
  fr_occurrenceCount :: "jsnum option"

datatype pattern_type =
  ToolSequence | CapabilityCombination | DurationEstimate | AvoidanceRule | OtherType string

text \<open>
  A learned pattern is one untyped object whose \<^verbatim>\<open>type\<close> property says which other
  properties it carries. The record has every property any variant uses; a numeric or
  string property that an object lacks is \<open>None\<close>, an array property that it lacks is
  \<open>[]\<close>. The merge code writes \<^verbatim>\<open>count\<close> and \<^verbatim>\<open>successRate\<close> on whatever object
  it matched, so these are optional on every variant.
\<close>

record pattern =
  pid :: "nat option"
  ptype :: pattern_type
  sequence :: "string list"
  capabilities_of :: "string list"
  useCase :: "string option"
  successRate :: "jsnum option"
  pcount :: "jsnum option"
  pcontext :: "string option"
  estimatedDuration :: "jsnum option"
  confidence :: "jsnum option"
  errorType :: "error_kind option"
  avoidCombination :: "string list"
  recommendedAlternative :: "string option"
  occurrenceCount :: "jsnum option"
  createdAt :: "int option"

definition newPattern :: "pattern_type \<Rightarrow> pattern" where
  "newPattern t =
     \<lparr> pid = None, ptype = t, sequence = [], capabilities_of = [], useCase = None,
       successRate = None, pcount = None, pcontext = None, estimatedDuration = None,
       confidence = None, errorType = None, avoidCombination = [],
       recommendedAlternative = None, occurrenceCount = None, createdAt = None \<rparr>"

text \<open>
  The fields of a \<^verbatim>\<open>LearningSystem\<close>, and \<open>nextId\<close>, the supply \<^verbatim>\<open>_generateId()\<close>
  draws from. \<^verbatim>\<open>saveLearningData()\<close> writes the three arrays to disk and changes none
  of them; a failing write is not modelled.
\<close>

record learning_system =
  learnedPatterns :: "pattern list"
  successfulWorkflows :: "workflow_record list"
  failedAttempts :: "failure_record list"
  nextId :: nat

definition initialSystem :: learning_system where
  "initialSystem =
     \<lparr> learnedPatterns = [], successfulWorkflows = [], failedAttempts = [], nextId = 0 \<rparr>"

definition generateId :: "learning_system \<Rightarrow> nat \<times> learning_system" where
  "generateId sys = (nextId sys, sys\<lparr>nextId := Suc (nextId sys)\<rparr>)"

definition emptyContext :: wf_context where
  "emptyContext = \<lparr> goal = None, industry = None \<rparr>"

subsection \<open>Mining a successful workflow\<close>

text \<open>
  \<^verbatim>\<open>_patternsMatch(p1, p2)\<close>. \<^verbatim>\<open>JSON.stringify\<close> is injective on arrays of strings, so
  comparing the two texts is comparing the two lists. \<^verbatim>\<open>Array.prototype.sort()\<close> sorts
  in place, by code units, so the call also leaves both \<^verbatim>\<open>capabilities\<close> arrays sorted;
  the function returns the two objects as it leaves them. A candidate's array is the one
  of the record logged in \<^verbatim>\<open>successfulWorkflows\<close>, which is therefore sorted with it; no
  operation modelled here reads that copy, and the model leaves it as logged.
\<close>

definition patternsMatch :: "pattern \<Rightarrow> pattern \<Rightarrow> bool \<times> pattern \<times> pattern" where
  "patternsMatch p1 p2 =
     (if ptype p1 \<noteq> ptype p2 then (False, p1, p2)
      else case ptype p1 of
          ToolSequence \<Rightarrow> (sequence p1 = sequence p2, p1, p2)
        | CapabilityCombination \<Rightarrow>
            (let c1 = sort (capabilities_of p1); c2 = sort (capabilities_of p2)
             in (c1 = c2, p1\<lparr>capabilities_of := c1\<rparr>, p2\<lparr>capabilities_of := c2\<rparr>))
        | DurationEstimate \<Rightarrow> (pcontext p1 = pcontext p2, p1, p2)
        | _ \<Rightarrow> (False, p1, p2))"

text \<open>
  \<^verbatim>\<open>this.learnedPatterns.find(p => this._patternsMatch(p, newPattern))\<close>: the index of
  the first stored pattern that matches, with the store and the candidate as the calls
  of \<^verbatim>\<open>_patternsMatch\<close> made up to there leave them.
\<close>

fun findPattern :: "pattern list \<Rightarrow> pattern \<Rightarrow> nat option \<times> pattern list \<times> pattern" where
  "findPattern [] c = (None, [], c)"
| "findPattern (p # ps) c =
     (case patternsMatch p c of
        (m, p', c') \<Rightarrow>
          if m then (Some 0, p' # ps, c')
          else (case findPattern ps c' of
                  (r, ps', c'') \<Rightarrow> (map_option Suc r, p' # ps', c'')))"

text \<open>
  The update of a matched pattern. \<^verbatim>\<open>existing.count++\<close> stores
  \<^verbatim>\<open>ToNumber(existing.count) + 1\<close>; the two averages read the new count.
\<close>

definition updateExisting :: "pattern \<Rightarrow> pattern \<Rightarrow> pattern" where
  "updateExisting existing newP =
     (let cnt = js_add (toNumber (pcount existing)) (Fin 1);
          rate = js_div (js_add (js_mul (toNumber (successRate existing)) (js_sub cnt (Fin 1)))
                                (Fin 1)) cnt;
          e1 = existing\<lparr>pcount := Some cnt, successRate := Some rate\<rparr>
      in if ptype newP = DurationEstimate
         then e1\<lparr>estimatedDuration :=
                   Some (js_div (js_add (js_mul (toNumber (estimatedDuration e1))
                                                (js_sub cnt (Fin 1)))
                                        (toNumber (estimatedDuration newP))) cnt)\<rparr>
         else e1)"

text \<open>One round of the \<^verbatim>\<open>patterns.forEach\<close> loop.\<close>

definition mergePattern :: "int \<Rightarrow> pattern \<Rightarrow> learning_system \<Rightarrow> learning_system" where
  "mergePattern now newP sys =
     (case findPattern (learnedPatterns sys) newP of
        (Some i, ps, c) \<Rightarrow> sys\<lparr>learnedPatterns := ps[i := updateExisting (ps ! i) c]\<rparr>
      | (None, ps, c) \<Rightarrow>
          (case generateId sys of
             (n, sys') \<Rightarrow>
               sys'\<lparr>learnedPatterns := ps @ [c\<lparr>pid := Some n, createdAt := Some now\<rparr>]\<rparr>))"

definition truthyStr :: "string option \<Rightarrow> bool" where
  "truthyStr s = (\<not> falsyStr s)"

text \<open>The candidates \<^verbatim>\<open>_extractPatternsFromWorkflow\<close> derives, in the order it pushes them.\<close>

definition toolSequenceCandidate :: "workflow_record \<Rightarrow> pattern list" where
  "toolSequenceCandidate w =
     (if length (rec_steps w) > 1 then
        (let toolSequence = map the (filter truthyStr (map tool (rec_steps w)))
         in if length toolSequence > 1
            then [(newPattern ToolSequence)
                    \<lparr>sequence := toolSequence,
                     useCase := (if truthyStr (goal (rec_context w)) then goal (rec_context w)
                                 else Some ''Unknown''),
                     successRate := Some (Fin 1), pcount := Some (Fin 1)\<rparr>]
            else [])
      else [])"

definition capabilityCandidate :: "workflow_record \<Rightarrow> pattern list" where
  "capabilityCandidate w =
     (if length (rec_capabilitiesUsed w) > 1
      then [(newPattern CapabilityCombination)
              \<lparr>capabilities_of := rec_capabilitiesUsed w, useCase := goal (rec_context w),
               successRate := Some (Fin 1), pcount := Some (Fin 1)\<rparr>]
      else [])"

definition durationCandidate :: "workflow_record \<Rightarrow> pattern list" where
  "durationCandidate w =
     (if truthyNum (rec_duration w)
      then [(newPattern DurationEstimate)
              \<lparr>pcontext := goal (rec_context w), estimatedDuration := rec_duration w,
               confidence := Some (Fin 1)\<rparr>]
      else [])"

definition candidatePatterns :: "workflow_record \<Rightarrow> pattern list" where
  "candidatePatterns w = toolSequenceCandidate w @ capabilityCandidate w @ durationCandidate w"

definition extractPatternsFromWorkflow ::
  "int \<Rightarrow> workflow_record \<Rightarrow> learning_system \<Rightarrow> learning_system" where
  "extractPatternsFromWorkflow now w sys =
     fold (mergePattern now) (candidatePatterns w) sys"

definition orEmpty :: "'a list option \<Rightarrow> 'a list" where
  "orEmpty xs = (case xs of None \<Rightarrow> [] | Some l \<Rightarrow> l)"

definition orEmptyContext :: "wf_context option \<Rightarrow> wf_context" where
  "orEmptyContext c = (case c of None \<Rightarrow> emptyContext | Some x \<Rightarrow> x)"

text \<open>The \<^verbatim>\<open>record\<close> object \<^verbatim>\<open>recordSuccess\<close> builds from its argument.\<close>

definition successRecord :: "nat \<Rightarrow> int \<Rightarrow> workflow \<Rightarrow> workflow_record" where
  "successRecord n now w =
     \<lparr> rec_id = n, rec_timestamp = now,
       rec_toolsUsed = orEmpty (toolsUsed w),
       rec_steps = orEmpty (steps w),
       rec_duration = duration w,
       rec_outcome = outcome w,
       rec_capabilitiesUsed = orEmpty (capabilities w),
       rec_context = orEmptyContext (wcontext w) \<rparr>"

text \<open>\<^verbatim>\<open>recordSuccess(workflow)\<close> called at time \<open>now\<close>: the id returned and the new state.\<close>

definition recordSuccess :: "int \<Rightarrow> workflow \<Rightarrow> learning_system \<Rightarrow> nat \<times> learning_system" where
  "recordSuccess now w sys =
     (case generateId sys of
        (n, sys1) \<Rightarrow>
          (let record = successRecord n now w;
               sys2 = sys1\<lparr>successfulWorkflows := successfulWorkflows sys1 @ [record]\<rparr>
           in (n, extractPatternsFromWorkflow now record sys2)))"

subsection \<open>Learning from a failure\<close>

text \<open>
  \<^verbatim>\<open>this.failedAttempts.find(f => this._classifyError(f.error) === errorType &&
  f.toolsUsed.join(',') === failure.toolsUsed.join(','))\<close>. The predicate throws on an
  entry whose \<^verbatim>\<open>error\<close> is not a string, and the exception leaves \<^verbatim>\<open>find\<close>.
\<close>

fun joinWith :: "string \<Rightarrow> string list \<Rightarrow> string" where
  "joinWith sep [] = []"
| "joinWith sep [x] = x"
| "joinWith sep (x # y # ys) = x @ sep @ joinWith sep (y # ys)"

fun findFailure ::
  "error_kind \<Rightarrow> string list \<Rightarrow> failure_record list \<Rightarrow> js_error + failure_record option" where
  "findFailure et tools [] = Inr None"
| "findFailure et tools (f # fs) =
     (case classifyError (fr_error f) of
        Inl e \<Rightarrow> Inl e
      | Inr k \<Rightarrow>
          if k = et \<and> joinWith '','' (fr_toolsUsed f) = joinWith '','' tools
          then Inr (Some f)
          else findFailure et tools fs)"

text \<open>
  \<^verbatim>\<open>_learnFromFailure(failure)\<close>. The local object \<^verbatim>\<open>failurePattern\<close> is only read for its
  \<^verbatim>\<open>occurrenceCount\<close>, which is \<open>occ\<close> below: 1, or
  \<^verbatim>\<open>(existing.occurrenceCount || 1) + 1\<close> when \<^verbatim>\<open>find\<close> returned an entry.
\<close>

definition learnFromFailure ::
  "int \<Rightarrow> failure_record \<Rightarrow> learning_system \<Rightarrow> js_error + learning_system" where
  "learnFromFailure now fl sys =
     (case classifyError (fr_error fl) of
        Inl e \<Rightarrow> Inl e
      | Inr et \<Rightarrow>
          (case findFailure et (fr_toolsUsed fl) (failedAttempts sys) of
             Inl e \<Rightarrow> Inl e
           | Inr existing \<Rightarrow>
               (let occ = (case existing of
                             None \<Rightarrow> Fin 1
                           | Some ex \<Rightarrow>
                               js_add (if truthyNum (fr_occurrenceCount ex)
                                       then toNumber (fr_occurrenceCount ex) else Fin 1)
                                      (Fin 1))
                in case generateId sys of
                     (n, sys') \<Rightarrow>
                       Inr (sys'\<lparr>learnedPatterns := learnedPatterns sys' @
                              [(newPattern AvoidanceRule)
                                 \<lparr>pid := Some n, errorType := Some et,
                                  avoidCombination := fr_toolsUsed fl,
                                  recommendedAlternative := fr_suggestion fl,
                                  occurrenceCount := Some occ,
                                  createdAt := Some now\<rparr>]\<rparr>))))"

text \<open>
  \<^verbatim>\<open>recordFailure(failure)\<close> called at time \<open>now\<close>. The record is pushed on
  \<^verbatim>\<open>failedAttempts\<close> before \<^verbatim>\<open>_learnFromFailure\<close> runs, so when that call throws the
  state keeps the record: the result is the exception or the id, beside the state left.
\<close>

definition recordFailure ::
  "int \<Rightarrow> failure \<Rightarrow> learning_system \<Rightarrow> (js_error + nat) \<times> learning_system" where
  "recordFailure now fl sys =
     (case generateId sys of
        (n, sys1) \<Rightarrow>
          (let record = \<lparr> fr_id = n, fr_timestamp = now,
                           fr_toolsUsed = orEmpty (f_toolsUsed fl),
                           fr_error = f_error fl,
                           fr_step = f_step fl,
                           fr_context = orEmptyContext (f_context fl),
                           fr_suggestion = f_suggestion fl,
                           fr_occurrenceCount = None \<rparr>;
               sys2 = sys1\<lparr>failedAttempts := failedAttempts sys1 @ [record]\<rparr>
           in case learnFromFailure now record sys2 of
                Inl e \<Rightarrow> (Inl e, sys2)
              | Inr sys3 \<Rightarrow> (Inr n, sys3)))"

section \<open>Suggestion Ranker\<close>

text \<open>The argument of \<^verbatim>\<open>getSuggestions\<close>; an array is truthy even when it is empty.\<close>

record query_context =
  q_goal :: "string option"
  requiredCapabilities :: "string list option"
  toolsToUse :: "string list option"

text \<open>The \<^verbatim>\<open>switch\<close> of \<^verbatim>\<open>getSuggestions\<close>: \<^verbatim>\<open>relevance\<close> starts at 0.\<close>

definition patternRelevance :: "query_context \<Rightarrow> pattern \<Rightarrow> jsnum" where
  "patternRelevance ctx p =
     (case ptype p of
        ToolSequence \<Rightarrow>
          if truthyStr (useCase p) \<and> truthyStr (q_goal ctx)
          then calculateSimilarity (useCase p) (q_goal ctx) else Fin 0
      | CapabilityCombination \<Rightarrow>
          (case requiredCapabilities ctx of
             None \<Rightarrow> Fin 0
           | Some req \<Rightarrow>
               (let overlap = length (filter (\<lambda>c. c \<in> set req) (capabilities_of p))
                in js_div (Fin (of_nat overlap)) (Fin (of_nat (length (capabilities_of p))))))
      | DurationEstimate \<Rightarrow>
          if truthyStr (q_goal ctx) then calculateSimilarity (pcontext p) (q_goal ctx)
          else Fin 0
      | AvoidanceRule \<Rightarrow>
          (case toolsToUse ctx of
             None \<Rightarrow> Fin 0
           | Some tools \<Rightarrow>
               (let toolsMatch = list_all (\<lambda>t. t \<in> set tools) (avoidCombination p)
                in if toolsMatch then Fin 1 else Fin 0))
      | OtherType _ \<Rightarrow> Fin 0)"

definition getSuggestionReason :: "pattern \<Rightarrow> string" where
  "getSuggestionReason p =
     (case ptype p of
        ToolSequence \<Rightarrow> ''Similar successful workflow used this sequence''
      | CapabilityCombination \<Rightarrow> ''These capabilities worked well together''
      | DurationEstimate \<Rightarrow> ''Estimated duration based on similar tasks''
      | AvoidanceRule \<Rightarrow> ''Avoiding known error pattern''
      | OtherType _ \<Rightarrow> ''Pattern matched from learning history'')"

text \<open>
  A suggestion is \<^verbatim>\<open>{...pattern, relevance, reason}\<close>: the pattern's own properties,
  kept together as \<open>sug_pattern\<close>, and the two added ones.
\<close>

record suggestion =
  sug_pattern :: pattern
  relevance :: jsnum
  reason :: string

text \<open>The \<^verbatim>\<open>forEach\<close> loop: the suggestions pushed, in store order.\<close>

fun collectSuggestions :: "query_context \<Rightarrow> pattern list \<Rightarrow> suggestion list" where
  "collectSuggestions ctx [] = []"
| "collectSuggestions ctx (p # ps) =
     (let rel = patternRelevance ctx p
      in if js_gt rel (Fin (3 / 10))
         then \<lparr> sug_pattern = p, relevance = rel, reason = getSuggestionReason p \<rparr>
                # collectSuggestions ctx ps
         else collectSuggestions ctx ps)"

definition compareSuggestions :: "suggestion \<Rightarrow> suggestion \<Rightarrow> jsnum" where
  "compareSuggestions a b =
     (let successDiff = js_sub (orZero (successRate (sug_pattern b)))
                               (orZero (successRate (sug_pattern a)))
      in if js_gt (js_abs successDiff) (Fin (1 / 10)) then successDiff
         else js_sub (relevance b) (relevance a))"

text \<open>
  \<^verbatim>\<open>Array.prototype.sort(compareFn)\<close> as a stable insertion sort: \<open>x\<close> moves behind
  \<open>y\<close> exactly when \<^verbatim>\<open>compareFn(x, y) > 0\<close>. The language fixes the order of the result
  only for a consistent comparator, and the banded comparator above is not one; whatever
  the engine does, the result holds the same elements, and nothing proved below about
  \<open>getSuggestions\<close> depends on more than that.
\<close>

fun insertBy :: "('a \<Rightarrow> 'a \<Rightarrow> jsnum) \<Rightarrow> 'a \<Rightarrow> 'a list \<Rightarrow> 'a list" where
  "insertBy cmp x [] = [x]"
| "insertBy cmp x (y # ys) =
     (if js_gt (cmp x y) (Fin 0) then y # insertBy cmp x ys else x # y # ys)"

definition sortBy :: "('a \<Rightarrow> 'a \<Rightarrow> jsnum) \<Rightarrow> 'a list \<Rightarrow> 'a list" where
  "sortBy cmp xs = foldr (insertBy cmp) xs []"

definition getSuggestions :: "query_context \<Rightarrow> learning_system \<Rightarrow> suggestion list" where
  "getSuggestions ctx sys =
     take 5 (sortBy compareSuggestions (collectSuggestions ctx (learnedPatterns sys)))"

section \<open>Template Extractor\<close>

text \<open>
  Class \<^verbatim>\<open>PatternExtractor\<close>. Its \<^verbatim>\<open>_generateId()\<close> draws from \<open>ext_nextId\<close>;
  \<^verbatim>\<open>saveSkillTemplates()\<close> writes the array to disk and does not change it.
\<close>

definition toUpperChar :: "char \<Rightarrow> char" where
  "toUpperChar c =
     (case map_of (zip ''abcdefghijklmnopqrstuvwxyz'' ''ABCDEFGHIJKLMNOPQRSTUVWXYZ'') c of
        Some u \<Rightarrow> u
      | None \<Rightarrow> c)"

text \<open>The decimal text of a length, as a template literal prints it.\<close>

fun showNat :: "nat \<Rightarrow> string" where
  "showNat n =
     (if n < 10 then [''0123456789'' ! n]
      else showNat (n div 10) @ [''0123456789'' ! (n mod 10)])"

datatype category =
  BrowserAutomation | DatabaseOperations | FileOperations | Testing | ApiIntegration
| MediaProcessing | GeneralAutomation

record normalized_step =
  n_tool :: string
  n_description :: string
  n_parameters :: "(string \<times> jsval) list"
  n_code :: "string option"
  n_duration :: "jsnum option"

record param_info =
  param_type :: string
  param_description :: string

record template =
  t_id :: nat
  t_name :: string
  t_description :: string
  t_category :: category
  useCases :: "string list"
  t_steps :: "normalized_step list"
  toolsRequired :: "string list"
  capabilitiesRequired :: "string list"
  t_parameters :: "(string \<times> param_info) list"
  t_estimatedDuration :: "jsnum option"
  successCount :: int
  lastUsed :: int
  examples :: "wf_context option list"

record extractor =
  skillTemplates :: "template list"
  ext_nextId :: nat

definition contextGoal :: "workflow \<Rightarrow> string option" where
  "contextGoal w = (case wcontext w of None \<Rightarrow> None | Some c \<Rightarrow> goal c)"

definition generateTemplateName :: "workflow \<Rightarrow> string" where
  "generateTemplateName w =
     (if truthyStr (contextGoal w)
      then (case the (contextGoal w) of
              c # cs \<Rightarrow> toUpperChar c # toLowerCase cs
            | [] \<Rightarrow> [])
      else ''Workflow Pattern'')"

definition generateDescription :: "workflow \<Rightarrow> string" where
  "generateDescription w =
     ''A '' @ showNat (length (orEmpty (steps w))) @ ''-step workflow using '' @
     joinWith '', '' (orEmpty (toolsUsed w)) @ '' that accomplishes '' @
     (if truthyStr (contextGoal w) then the (contextGoal w) else ''a common task'')"

definition classifyCategory :: "workflow \<Rightarrow> category" where
  "classifyCategory w =
     (let tools = orEmpty (toolsUsed w) in
      if list_ex (\<lambda>t. includes_str t ''browser'' \<or> includes_str t ''web'') tools
      then BrowserAutomation
      else if list_ex (\<lambda>t. includes_str t ''database'' \<or> includes_str t ''db'') tools
      then DatabaseOperations
      else if list_ex (\<lambda>t. includes_str t ''file'' \<or> includes_str t ''fs'') tools
      then FileOperations
      else if list_ex (\<lambda>t. includes_str t ''test'') tools
      then Testing
      else if list_ex (\<lambda>t. includes_str t ''api'') tools
      then ApiIntegration
      else if list_ex (\<lambda>t. includes_str t ''image'' \<or> includes_str t ''video'') tools
      then MediaProcessing
      else GeneralAutomation)"

text \<open>
  Pushing the elements of a list on \<open>acc\<close>, each only if it is not there yet: the order
  of a \<^verbatim>\<open>Set\<close> built from an array, and the loop of \<^verbatim>\<open>_extractTools\<close>.
\<close>

fun pushUnique :: "'a list \<Rightarrow> 'a list \<Rightarrow> 'a list" where
  "pushUnique acc [] = acc"
| "pushUnique acc (x # xs) = pushUnique (if x \<in> set acc then acc else acc @ [x]) xs"

definition extractUseCases :: "workflow \<Rightarrow> string list" where
  "extractUseCases w =
     (let fromContext =
            (case wcontext w of
               None \<Rightarrow> []
             | Some c \<Rightarrow>
                 (if truthyStr (goal c) then [the (goal c)] else []) @
                 (if truthyStr (industry c) then [the (industry c) @ '' automation''] else []));
          tools = orEmpty (toolsUsed w);
          fromTools =
            (if ''web_search'' \<in> set tools then [''research'', ''information gathering''] else []) @
            (if ''browser'' \<in> set tools then [''web automation'', ''scraping''] else []) @
            (if ''message'' \<in> set tools then [''communication'', ''notifications''] else [])
      in pushUnique [] (fromContext @ fromTools))"

definition normalizeSteps :: "step list \<Rightarrow> normalized_step list" where
  "normalizeSteps ss =
     map (\<lambda>st. \<lparr> n_tool = (if truthyStr (tool st) then the (tool st) else ''unknown''),
                  n_description = (if truthyStr (description st) then the (description st)
                                   else ''Execute step''),
                  n_parameters = orEmpty (parameters st),
                  n_code = (if truthyStr (code st) then code st else None),
                  n_duration = (if truthyNum (stepDuration st) then stepDuration st else None) \<rparr>)
         ss"

definition extractTools :: "step list \<Rightarrow> string list" where
  "extractTools ss = pushUnique [] (map the (filter truthyStr (map tool ss)))"

fun typeof :: "jsval \<Rightarrow> string" where
  "typeof (VString _) = ''string''"
| "typeof (VNumber _) = ''number''"
| "typeof (VBoolean _) = ''boolean''"
| "typeof VObject = ''object''"
| "typeof VNull = ''object''"
| "typeof VUndefined = ''undefined''"

text \<open>
  \<^verbatim>\<open>_extractParameters\<close>: the first type and description seen for each parameter name.
  \<^verbatim>\<open>params\<close> starts as the plain object \<^verbatim>\<open>{}\<close>, so \<^verbatim>\<open>params[key]\<close> also finds what
  \<^verbatim>\<open>Object.prototype\<close> provides: for the names below it is a function (or, for
  \<^verbatim>\<open>__proto__\<close>, the prototype object), which is truthy, and the parameter is skipped.
  Every value the loop stores is an object, so for any other name \<^verbatim>\<open>!params[key]\<close> says
  that the name has not been stored yet. The object is an association list in insertion
  order.
\<close>

definition objectPrototypeKeys :: "string list" where
  "objectPrototypeKeys =
     [''constructor'', ''__defineGetter__'', ''__defineSetter__'', ''hasOwnProperty'',
      ''__lookupGetter__'', ''__lookupSetter__'', ''isPrototypeOf'', ''propertyIsEnumerable'',
      ''toString'', ''valueOf'', ''__proto__'', ''toLocaleString'']"

fun addParameters ::
  "string option \<Rightarrow> (string \<times> param_info) list \<Rightarrow> (string \<times> jsval) list \<Rightarrow>
     (string \<times> param_info) list" where
  "addParameters d params [] = params"
| "addParameters d params ((key, val) # es) =
     addParameters d
       (if map_of params key = None \<and> key \<notin> set objectPrototypeKeys
        then params @ [(key, \<lparr> param_type = typeof val,
                                 param_description = ''Parameter from step: '' @
                                   (case d of None \<Rightarrow> ''undefined'' | Some t \<Rightarrow> t) \<rparr>)]
        else params)
       es"

definition extractParameters :: "workflow \<Rightarrow> (string \<times> param_info) list" where
  "extractParameters w =
     fold (\<lambda>st params. addParameters (description st) params (orEmpty (parameters st)))
          (orEmpty (steps w)) []"

text \<open>\<^verbatim>\<open>_findSimilarTemplate(template)\<close>: the index of the first stored template it accepts.\<close>

definition similarTemplate :: "template \<Rightarrow> template \<Rightarrow> bool" where
  "similarTemplate cand t =
     (t_category t = t_category cand \<and>
      length (toolsRequired t) = length (toolsRequired cand) \<and>
      list_all (\<lambda>tl. tl \<in> set (toolsRequired cand)) (toolsRequired t))"

fun findIndex :: "('a \<Rightarrow> bool) \<Rightarrow> 'a list \<Rightarrow> nat option" where
  "findIndex P [] = None"
| "findIndex P (x # xs) = (if P x then Some 0 else map_option Suc (findIndex P xs))"

definition findSimilarTemplate :: "template list \<Rightarrow> template \<Rightarrow> nat option" where
  "findSimilarTemplate ts cand = findIndex (similarTemplate cand) ts"

text \<open>
  \<^verbatim>\<open>extractFromWorkflow(workflow)\<close> called at time \<open>now\<close>: \<open>None\<close> is \<^verbatim>\<open>null\<close>, and
  \<open>Some (merged, template)\<close> is \<^verbatim>\<open>{merged, template}\<close>. The candidate takes an id even
  when it is merged away. On a match the duration is written under the test
  \<^verbatim>\<open>!template.estimatedDuration\<close>, as it stands in the source.
\<close>

definition extractFromWorkflow ::
  "int \<Rightarrow> workflow \<Rightarrow> extractor \<Rightarrow> (bool \<times> template) option \<times> extractor" where
  "extractFromWorkflow now w ext =
     (if steps w = None \<or> length (orEmpty (steps w)) < 2 then (None, ext)
      else
        (let cand = \<lparr> t_id = ext_nextId ext,
                       t_name = generateTemplateName w,
                       t_description = generateDescription w,
                       t_category = classifyCategory w,
                       useCases = extractUseCases w,
                       t_steps = normalizeSteps (orEmpty (steps w)),
                       toolsRequired = extractTools (orEmpty (steps w)),
                       capabilitiesRequired = orEmpty (capabilitiesUsed w),
                       t_parameters = extractParameters w,
                       t_estimatedDuration = duration w,
                       successCount = 1,
                       lastUsed = now,
                       examples = [wcontext w] \<rparr>;
             ext1 = ext\<lparr>ext_nextId := Suc (ext_nextId ext)\<rparr>
         in case findSimilarTemplate (skillTemplates ext1) cand of
              Some i \<Rightarrow>
                (let existing = skillTemplates ext1 ! i;
                     e1 = existing\<lparr>successCount := successCount existing + 1,
                                   examples := examples existing @ [wcontext w],
                                   lastUsed := now\<rparr>;
                     e2 = (if \<not> truthyNum (t_estimatedDuration cand)
                           then e1\<lparr>t_estimatedDuration := t_estimatedDuration cand\<rparr>
                           else e1)
                 in (Some (True, e2), ext1\<lparr>skillTemplates := (skillTemplates ext1)[i := e2]\<rparr>))
            | None \<Rightarrow>
                (Some (False, cand), ext1\<lparr>skillTemplates := skillTemplates ext1 @ [cand]\<rparr>)))"

section \<open>Trending Scorer\<close>

subsection \<open>Double-precision arithmetic\<close>

text \<open>
  \<^verbatim>\<open>getTrendingPatterns\<close> multiplies a stored success rate by 100 and subtracts from the
  sum, and there the rounding of each operation to a double shows in the result. Its
  arithmetic is therefore modelled on IEEE 754 binary64 with rounding to nearest, ties to
  even: an operation on two finite numbers computes the exact rational result and rounds
  it with \<open>toDouble\<close>. A finite double is the rational it denotes.

  \<open>binade x\<close> is the exponent \<open>e\<close> with \<open>2 powi e \<le> \<bar>x\<bar> < 2 powi (e + 1)\<close>. The doubles of
  that binade are the multiples of \<open>2 powi (e - 52)\<close>; below \<open>2 powi (- 1022)\<close> (the
  subnormal range) they are the multiples of \<open>2 powi (- 1074)\<close>. A result that rounds to
  \<open>2 powi 1024\<close> or beyond is an infinity. As in the rest of the model the two zeros are
  one.
\<close>

definition binade :: "rat \<Rightarrow> int" where
  "binade x =
     (case quotient_of \<bar>x\<bar> of
        (p, q) \<Rightarrow>
          (let d = bitlen p - bitlen q in if 2 powi d \<le> \<bar>x\<bar> then d else d - 1))"

definition roundHalfEven :: "rat \<Rightarrow> int" where
  "roundHalfEven y =
     (let f = \<lfloor>y\<rfloor>; r = y - of_int f
      in if r < 1 / 2 then f
         else if 1 / 2 < r then f + 1
         else if even f then f else f + 1)"

definition toDouble :: "rat \<Rightarrow> jsnum" where
  "toDouble x =
     (if x = 0 then Fin 0
      else
        (let q = 2 powi (max (binade x) (- 1022) - 52);
             r = of_int (roundHalfEven (x / q)) * q
         in if 2 powi 1024 \<le> \<bar>r\<bar> then (if x < 0 then NInf else PInf) else Fin r))"

fun dadd :: "jsnum \<Rightarrow> jsnum \<Rightarrow> jsnum" where
  "dadd (Fin a) (Fin b) = toDouble (a + b)"
| "dadd x y = js_add x y"

fun dsub :: "jsnum \<Rightarrow> jsnum \<Rightarrow> jsnum" where
  "dsub (Fin a) (Fin b) = toDouble (a - b)"
| "dsub x y = js_sub x y"

fun dmul :: "jsnum \<Rightarrow> jsnum \<Rightarrow> jsnum" where
  "dmul (Fin a) (Fin b) = toDouble (a * b)"
| "dmul x y = js_mul x y"

fun ddiv :: "jsnum \<Rightarrow> jsnum \<Rightarrow> jsnum" where
  "ddiv (Fin a) (Fin b) = (if b = 0 then js_div (Fin a) (Fin b) else toDouble (a / b))"
| "ddiv x y = js_div x y"

text \<open>\<^verbatim>\<open>Math.floor\<close>: the floor of a finite double is a double.\<close>

fun js_floor :: "jsnum \<Rightarrow> jsnum" where
  "js_floor (Fin a) = Fin (of_int \<lfloor>a\<rfloor>)"
| "js_floor x = x"

text \<open>The double that holds an integer (the integer itself up to \<open>2 ^ 53\<close>).\<close>

definition intDouble :: "int \<Rightarrow> jsnum" where
  "intDouble i = toDouble (of_int i)"

subsection \<open>Scoring\<close>

text \<open>
  Class \<^verbatim>\<open>CommunityShare\<close>, as far as \<^verbatim>\<open>getTrendingPatterns\<close> reads it. A shared
  pattern has more properties than the three read here; they are copied to the result
  untouched and are left out. \<open>sp_successRate\<close> is the double the object holds.
  \<open>sp_createdAt\<close> is the instant the ISO text of \<^verbatim>\<open>createdAt\<close> denotes, in milliseconds,
  as \<^verbatim>\<open>new Date(createdAt).getTime()\<close> gives it, and \<open>now\<close> is \<^verbatim>\<open>Date.now()\<close>; both are
  integers that a double holds exactly. Vote counts are the integers \<^verbatim>\<open>vote\<close> counts
  up from 0. A vote key starts with \<^verbatim>\<open>pattern:\<close>, so it names no inherited property of
  the \<^verbatim>\<open>votes\<close> object.
\<close>

record shared_pattern =
  sp_id :: string
  sp_successRate :: jsnum
  sp_createdAt :: int

record vote =
  up :: int
  down :: int

record community =
  sharedPatterns :: "shared_pattern list"
  votes :: "string \<rightharpoonup> vote"

record scored_pattern =
  scored :: shared_pattern
  score :: jsnum
  sc_votes :: jsnum

definition weekMillis :: int where
  "weekMillis = 7 * 24 * 60 * 60 * 1000"

text \<open>
  The body of the \<^verbatim>\<open>map\<close> callback. \<^verbatim>\<open>this.votes[voteKey]?.up || 0\<close> is 0 when the key
  has no entry and the stored count otherwise.
\<close>

definition netVotes :: "(string \<rightharpoonup> vote) \<Rightarrow> string \<Rightarrow> jsnum" where
  "netVotes vs voteKey =
     dsub (case vs voteKey of None \<Rightarrow> Fin 0 | Some v \<Rightarrow> intDouble (up v))
          (case vs voteKey of None \<Rightarrow> Fin 0 | Some v \<Rightarrow> intDouble (down v))"

definition agePenalty :: "int \<Rightarrow> shared_pattern \<Rightarrow> jsnum" where
  "agePenalty now p =
     (let age = dsub (intDouble now) (intDouble (sp_createdAt p))
      in js_floor (ddiv age (intDouble weekMillis)))"

definition scorePattern :: "int \<Rightarrow> (string \<rightharpoonup> vote) \<Rightarrow> shared_pattern \<Rightarrow> scored_pattern" where
  "scorePattern now vs p =
     (let vts = netVotes vs (''pattern:'' @ sp_id p)
      in \<lparr> scored = p,
           score = dsub (dadd (dmul (sp_successRate p) (Fin 100)) vts) (agePenalty now p),
           sc_votes = vts \<rparr>)"

definition getTrendingPatterns :: "nat \<Rightarrow> int \<Rightarrow> community \<Rightarrow> scored_pattern list" where
  "getTrendingPatterns limit now cs =
     take limit
       (sortBy (\<lambda>a b. dsub (score b) (score a))
          (map (scorePattern now (votes cs)) (sharedPatterns cs)))"

section \<open>Identity of a pattern\<close>

text \<open>
  What it means for two patterns to have equal identifying fields: the same variant, and
  the same tool sequence, or the same capabilities up to order (as multisets), or the
  same context. Avoidance rules and objects of any other type have no identity.
\<close>

definition sameIdentity :: "pattern \<Rightarrow> pattern \<Rightarrow> bool" where
  "sameIdentity p q =
     (ptype p = ptype q \<and>
      (case ptype p of
         ToolSequence \<Rightarrow> sequence p = sequence q
       | CapabilityCombination \<Rightarrow> mset (capabilities_of p) = mset (capabilities_of q)
       | DurationEstimate \<Rightarrow> pcontext p = pcontext q
       | _ \<Rightarrow> False))"

text \<open>No two entries of a store have equal identifying fields.\<close>

definition noDuplicatePatterns :: "pattern list \<Rightarrow> bool" where
  "noDuplicatePatterns ps =
     (\<forall>i < length ps. \<forall>j < length ps. i \<noteq> j \<longrightarrow> \<not> sameIdentity (ps ! i) (ps ! j))"

text \<open>\<open>i\<close> is the first entry of the store with the identifying fields of \<open>c\<close>.\<close>

definition firstMatch :: "pattern list \<Rightarrow> pattern \<Rightarrow> nat \<Rightarrow> bool" where
  "firstMatch ps c i =
     (i < length ps \<and> sameIdentity (ps ! i) c \<and> (\<forall>j < i. \<not> sameIdentity (ps ! j) c))"

text \<open>
  The states of a \<^verbatim>\<open>LearningSystem\<close> that starts without stored data and is driven by
  \<^verbatim>\<open>recordSuccess\<close> and \<^verbatim>\<open>recordFailure\<close>, whether the latter returns or throws.
\<close>

inductive reachable :: "learning_system \<Rightarrow> bool" where
  reachable_initial: "reachable initialSystem"
| reachable_success: "reachable sys \<Longrightarrow> reachable (snd (recordSuccess now w sys))"
| reachable_failure: "reachable sys \<Longrightarrow> reachable (snd (recordFailure now fl sys))"

text \<open>
  The identifying fields as one value, with the capabilities in sorted order, and the
  relation between an object and what a call of \<open>patternsMatch\<close> may leave of it.
\<close>

datatype identity = SeqId "string list" | CapsId "string list" | CtxId "string option"

definition identityOf :: "pattern \<Rightarrow> identity option" where
  "identityOf p =
     (case ptype p of
        ToolSequence \<Rightarrow> Some (SeqId (sequence p))
      | CapabilityCombination \<Rightarrow> Some (CapsId (sort (capabilities_of p)))
      | DurationEstimate \<Rightarrow> Some (CtxId (pcontext p))
      | _ \<Rightarrow> None)"

definition sortedCaps :: "pattern \<Rightarrow> pattern \<Rightarrow> bool" where
  "sortedCaps p p' = (p' = p \<or> p' = p\<lparr>capabilities_of := sort (capabilities_of p)\<rparr>)"

text \<open>In a list of identities none occurs at two positions.\<close>

definition noRepeatedKey :: "identity option list \<Rightarrow> bool" where
  "noRepeatedKey ks =
     (\<forall>i < length ks. \<forall>j < length ks. i \<noteq> j \<longrightarrow> ks ! i = ks ! j \<longrightarrow> ks ! i = None)"

text \<open>A mergeable pattern that the miner counts holds a number as its count.\<close>

definition countedPattern :: "pattern \<Rightarrow> bool" where
  "countedPattern p =
     (ptype p = ToolSequence \<or> ptype p = CapabilityCombination \<longrightarrow>
        (\<exists>k. pcount p = Some (Fin k)))"

section \<open>Inputs used in the examples\<close>

text \<open>
  The objects \<^verbatim>\<open>{duration: d, context: {goal: g}}\<close>, \<^verbatim>\<open>{capabilities: cs}\<close> and
  \<^verbatim>\<open>{error: e, toolsUsed: ts}\<close>, each with every other property absent.
\<close>

definition goalContext :: "string \<Rightarrow> wf_context" where
  "goalContext g = \<lparr> goal = Some g, industry = None \<rparr>"

definition timedWorkflow :: "string \<Rightarrow> rat \<Rightarrow> workflow" where
  "timedWorkflow g d =
     \<lparr> toolsUsed = None, steps = None, duration = Some (Fin d), outcome = None,
       capabilities = None, capabilitiesUsed = None, wcontext = Some (goalContext g) \<rparr>"

definition failureOf :: "string option \<Rightarrow> string list option \<Rightarrow> failure" where
  "failureOf e ts =
     \<lparr> f_toolsUsed = ts, f_error = e, f_step = None, f_context = None, f_suggestion = None \<rparr>"

definition capabilityWorkflow :: "string list \<Rightarrow> workflow" where
  "capabilityWorkflow cs =
     \<lparr> toolsUsed = None, steps = None, duration = None, outcome = None,
       capabilities = Some cs, capabilitiesUsed = None, wcontext = None \<rparr>"

definition crowdedSystem :: learning_system where
  "crowdedSystem =
     fold (\<lambda>t s. snd (recordFailure t (failureOf (Some ''connection timeout'') None) s))
       [1, 2, 3, 4, 5, 6]
       (snd (recordSuccess 0
          (capabilityWorkflow [''c0'', ''c1'', ''c2'', ''c3'', ''c4'', ''c5'', ''c6'', ''c7'', ''c8'', ''c9''])
          initialSystem))"

definition crowdedQuery :: query_context where
  "crowdedQuery =
     \<lparr> q_goal = None, requiredCapabilities = Some [''c0'', ''c1'', ''c2''],
       toolsToUse = Some [''web_search''] \<rparr>"

definition browserQuery :: query_context where
  "browserQuery =
     \<lparr> q_goal = None, requiredCapabilities = None, toolsToUse = Some [''browser''] \<rparr>"

text \<open>
  A two-step workflow \<^verbatim>\<open>{toolsUsed: ["web_search", "browser"], steps: [{tool:
  "web_search"}, {tool: "browser"}], duration: d, context: {goal: "scrape site"}}\<close>, the
  learning system that has recorded it once without a duration, an extractor without
  templates, a shared pattern whose success rate is the double written as the decimal
  \<open>rate\<close>, and two shared patterns of success rate 0.9 and five net votes each, created
  one week apart.
\<close>

definition toolStep :: "string \<Rightarrow> step" where
  "toolStep t = \<lparr> tool = Some t, description = None, parameters = None, code = None,
                   stepDuration = None \<rparr>"

definition scrapeWorkflow :: "jsnum option \<Rightarrow> workflow" where
  "scrapeWorkflow d =
     \<lparr> toolsUsed = Some [''web_search'', ''browser''],
       steps = Some [toolStep ''web_search'', toolStep ''browser''],
       duration = d, outcome = None, capabilities = None, capabilitiesUsed = None,
       wcontext = Some (goalContext ''scrape site'') \<rparr>"

definition scrapedOnce :: learning_system where
  "scrapedOnce = snd (recordSuccess 0 (scrapeWorkflow None) initialSystem)"

definition emptyExtractor :: extractor where
  "emptyExtractor = \<lparr> skillTemplates = [], ext_nextId = 0 \<rparr>"

definition ratedPattern :: "string \<Rightarrow> rat \<Rightarrow> int \<Rightarrow> shared_pattern" where
  "ratedPattern i rate created =
     \<lparr> sp_id = i, sp_successRate = toDouble rate, sp_createdAt = created \<rparr>"

definition twoPatternCommunity :: community where
  "twoPatternCommunity =
     \<lparr> sharedPatterns = [ratedPattern ''old'' (9 / 10) 0,
                          ratedPattern ''new'' (9 / 10) weekMillis],
       votes = [''pattern:old'' \<mapsto> \<lparr> up = 6, down = 1 \<rparr>,
                ''pattern:new'' \<mapsto> \<lparr> up = 5, down = 0 \<rparr>] \<rparr>"

section \<open>Properties of the Error Classifier\<close>

lemma lower_permission_not_found:
  "toLowerCase ''Permission file not found'' = ''permission file not found''"
  by code_simp

lemma lower_api_key_not_found: "toLowerCase ''API key not found'' = ''api key not found''"
  by code_simp

text \<open>
  C2, as stated, fails: a message that contains "not found" is classified as a permission
  error when it also contains "permission", because rule 1 is tested before rule 2.
\<close>

theorem classify_not_found_counterexample:
  "includes_str (toLowerCase ''Permission file not found'') ''not found'' \<and>
   classifyError (Some ''Permission file not found'') = Inr PermissionError \<and>
   classifyError (Some ''Permission file not found'') \<noteq> Inr MissingDependency"
  by (simp add: classifyError_def lower_permission_not_found)

text \<open>
  C2, amended: the rules are tested in the order permission, missing-dependency, timeout,
  authentication, syntax, and the first that matches wins. So a message whose lower-casing
  contains "not found" or "missing", and neither "permission" nor "access denied", is a
  missing dependency whatever else it contains ("api" with "key" or "auth" included); a
  later rule is reached only when all earlier ones fail; and "API key not found" is a
  missing dependency.
\<close>

theorem classify_ordered_rules:
  fixes m :: string
  defines "l \<equiv> toLowerCase m"
  defines "r1 \<equiv> includes_str l ''permission'' \<or> includes_str l ''access denied''"
  defines "r2 \<equiv> includes_str l ''not found'' \<or> includes_str l ''missing''"
  defines "r3 \<equiv> includes_str l ''timeout'' \<or> includes_str l ''timed out''"
  defines "r4 \<equiv> includes_str l ''api'' \<and> (includes_str l ''key'' \<or> includes_str l ''auth'')"
  defines "r5 \<equiv> includes_str l ''syntax'' \<or> includes_str l ''parse''"
  shows "(r1 \<longrightarrow> classifyError (Some m) = Inr PermissionError) \<and>
         (\<not> r1 \<and> r2 \<longrightarrow> classifyError (Some m) = Inr MissingDependency) \<and>
         (\<not> r1 \<and> \<not> r2 \<and> r3 \<longrightarrow> classifyError (Some m) = Inr Timeout) \<and>
         (\<not> r1 \<and> \<not> r2 \<and> \<not> r3 \<and> r4 \<longrightarrow> classifyError (Some m) = Inr AuthenticationError) \<and>
         (\<not> r1 \<and> \<not> r2 \<and> \<not> r3 \<and> \<not> r4 \<and> r5 \<longrightarrow> classifyError (Some m) = Inr SyntaxError) \<and>
         (\<not> r1 \<and> \<not> r2 \<and> \<not> r3 \<and> \<not> r4 \<and> \<not> r5 \<longrightarrow> classifyError (Some m) = Inr UnknownError) \<and>
         classifyError (Some ''API key not found'') = Inr MissingDependency"
proof -
  have c: "classifyError (Some ''API key not found'') = Inr MissingDependency"
    by (simp add: classifyError_def lower_api_key_not_found)
  have g1: "r1 \<Longrightarrow> classifyError (Some m) = Inr PermissionError"
    unfolding r1_def l_def by (simp add: classifyError_def Let_def)
  have g2: "\<not> r1 \<Longrightarrow> r2 \<Longrightarrow> classifyError (Some m) = Inr MissingDependency"
    unfolding r1_def r2_def l_def by (simp add: classifyError_def Let_def)
  have g3: "\<not> r1 \<Longrightarrow> \<not> r2 \<Longrightarrow> r3 \<Longrightarrow> classifyError (Some m) = Inr Timeout"
    unfolding r1_def r2_def r3_def l_def by (simp add: classifyError_def Let_def)
  have g4: "\<not> r1 \<Longrightarrow> \<not> r2 \<Longrightarrow> \<not> r3 \<Longrightarrow> r4 \<Longrightarrow>
            classifyError (Some m) = Inr AuthenticationError"
    unfolding r1_def r2_def r3_def r4_def l_def by (simp add: classifyError_def Let_def)
  have g5: "\<not> r1 \<Longrightarrow> \<not> r2 \<Longrightarrow> \<not> r3 \<Longrightarrow> \<not> r4 \<Longrightarrow> r5 \<Longrightarrow>
            classifyError (Some m) = Inr SyntaxError"
    unfolding r1_def r2_def r3_def r4_def r5_def l_def by (simp add: classifyError_def Let_def)
  have g6: "\<not> r1 \<Longrightarrow> \<not> r2 \<Longrightarrow> \<not> r3 \<Longrightarrow> \<not> r4 \<Longrightarrow> \<not> r5 \<Longrightarrow>
            classifyError (Some m) = Inr UnknownError"
    unfolding r1_def r2_def r3_def r4_def r5_def l_def by (simp add: classifyError_def Let_def)
  from g1 g2 g3 g4 g5 g6 c show ?thesis by blast
qed

theorem classify_ordered_rules_witness:
  "includes_str (toLowerCase ''API key not found'') ''api'' \<and>
   includes_str (toLowerCase ''API key not found'') ''key'' \<and>
   includes_str (toLowerCase ''API key not found'') ''not found'' \<and>
   \<not> includes_str (toLowerCase ''API key not found'') ''permission'' \<and>
   \<not> includes_str (toLowerCase ''API key not found'') ''access denied'' \<and>
   classifyError (Some ''API key not found'') = Inr MissingDependency"
  using classify_ordered_rules [of "''API key not found''"]
  by (simp add: lower_api_key_not_found)

section \<open>Properties of the Similarity Utility\<close>

text \<open>
  C3 does not hold of the code: the intersection keeps repeated words of the first string
  while the union is a set. For "scrape scrape site" against "scrape site" the score is
  3/2, outside [0,1]; with the arguments swapped it is 1, so the score is not symmetric;
  and the score of "scrape scrape site" with itself is 3/2, not 1.
\<close>

theorem similarity_repeated_word:
  "calculateSimilarity (Some ''scrape scrape site'') (Some ''scrape site'') = Fin (3 / 2) \<and>
   calculateSimilarity (Some ''scrape site'') (Some ''scrape scrape site'') = Fin 1 \<and>
   calculateSimilarity (Some ''scrape scrape site'') (Some ''scrape scrape site'') = Fin (3 / 2)"
  by code_simp

section \<open>Properties of the Workflow Recorder\<close>

text \<open>
  C4 does not hold of the code: \<^verbatim>\<open>recordFailure\<close> defaults \<^verbatim>\<open>toolsUsed\<close> and
  \<^verbatim>\<open>context\<close> but passes \<^verbatim>\<open>error\<close> on as it is, and \<^verbatim>\<open>_classifyError\<close> calls
  \<^verbatim>\<open>toLowerCase\<close> on it. Whatever the state and the other properties, a failure object
  without a string \<^verbatim>\<open>error\<close> makes \<^verbatim>\<open>recordFailure\<close> throw a \<^verbatim>\<open>TypeError\<close>, after the
  record has been pushed on \<^verbatim>\<open>failedAttempts\<close>, and no pattern is recorded.
\<close>

theorem recordFailure_absent_error_throws:
  "fst (recordFailure now (fl\<lparr>f_error := None\<rparr>) sys) = Inl TypeError \<and>
   learnedPatterns (snd (recordFailure now (fl\<lparr>f_error := None\<rparr>) sys)) = learnedPatterns sys \<and>
   length (failedAttempts (snd (recordFailure now (fl\<lparr>f_error := None\<rparr>) sys))) =
     Suc (length (failedAttempts sys))"
  by (simp add: recordFailure_def generateId_def learnFromFailure_def classifyError_def Let_def)

text \<open>
  C8 does not hold of the code: \<^verbatim>\<open>recordFailure\<close> pushes the new record on
  \<^verbatim>\<open>failedAttempts\<close> before \<^verbatim>\<open>_learnFromFailure\<close> searches that array, so the search
  always finds an entry (at the latest the record itself), and no entry carries an
  \<^verbatim>\<open>occurrenceCount\<close>. The first failure ever recorded gets the count 2, not 1, and the
  third identical failure gets 2 again.
\<close>

theorem occurrence_count_always_two:
  "(let fl = failureOf (Some ''connection timeout'') (Some [''web_search'']);
        sys1 = snd (recordFailure 0 fl initialSystem);
        sys2 = snd (recordFailure 1 fl sys1);
        sys3 = snd (recordFailure 2 fl sys2)
    in map occurrenceCount (learnedPatterns sys1) = [Some (Fin 2)] \<and>
       map occurrenceCount (learnedPatterns sys3) = [Some (Fin 2), Some (Fin 2), Some (Fin 2)])"
  by code_simp

text \<open>
  C5 does not hold of the code: a duration-estimate candidate is created without
  \<^verbatim>\<open>count\<close>, so the merge computes \<^verbatim>\<open>undefined + 1\<close>. Recording two workflows with the
  goal "build report" and the durations 100 and 200 leaves one duration-estimate pattern
  whose count and estimate are both \<^verbatim>\<open>NaN\<close>, not 150.
\<close>

theorem duration_merge_not_a_number:
  "(let sys1 = snd (recordSuccess 0 (timedWorkflow ''build report'' 100) initialSystem);
        sys2 = snd (recordSuccess 1 (timedWorkflow ''build report'' 200) sys1)
    in map ptype (learnedPatterns sys1) = [DurationEstimate] \<and>
       map estimatedDuration (learnedPatterns sys1) = [Some (Fin 100)] \<and>
       map ptype (learnedPatterns sys2) = [DurationEstimate] \<and>
       map pcontext (learnedPatterns sys2) = [Some ''build report''] \<and>
       map pcount (learnedPatterns sys2) = [Some NaN] \<and>
       map estimatedDuration (learnedPatterns sys2) = [Some NaN])"
  by code_simp

section \<open>Properties of the Suggestion Ranker\<close>

lemma set_insertBy: "set (insertBy cmp x xs) = insert x (set xs)"
  by (induction xs) auto

lemma length_insertBy: "length (insertBy cmp x xs) = Suc (length xs)"
  by (induction xs) auto

lemma set_sortBy: "set (sortBy cmp xs) = set xs"
  by (induction xs) (auto simp: sortBy_def set_insertBy)

lemma collectSuggestions_member:
  "s \<in> set (collectSuggestions ctx ps) \<Longrightarrow>
     js_gt (relevance s) (Fin (3 / 10)) \<and> relevance s = patternRelevance ctx (sug_pattern s) \<and>
     sug_pattern s \<in> set ps"
  by (induction ps) (auto simp: Let_def split: if_splits)

lemma collectSuggestions_complete:
  "p \<in> set ps \<Longrightarrow> js_gt (patternRelevance ctx p) (Fin (3 / 10)) \<Longrightarrow>
     \<lparr> sug_pattern = p, relevance = patternRelevance ctx p, reason = getSuggestionReason p \<rparr>
       \<in> set (collectSuggestions ctx ps)"
  by (induction ps) (auto simp: Let_def)

text \<open>
  C6: \<^verbatim>\<open>getSuggestions\<close> returns at most 5 entries; each is made from a stored pattern,
  carries the relevance computed for that pattern, and that relevance is strictly greater
  than 0.3 (so never equal to it).
\<close>

theorem getSuggestions_bounded:
  "length (getSuggestions ctx sys) \<le> 5 \<and>
   (\<forall>s \<in> set (getSuggestions ctx sys).
      sug_pattern s \<in> set (learnedPatterns sys) \<and>
      relevance s = patternRelevance ctx (sug_pattern s) \<and>
      js_gt (relevance s) (Fin (3 / 10)) \<and> relevance s \<noteq> Fin (3 / 10))"
proof -
  have "set (getSuggestions ctx sys) \<subseteq> set (collectSuggestions ctx (learnedPatterns sys))"
    unfolding getSuggestions_def using set_take_subset set_sortBy by fastforce
  then have "\<forall>s \<in> set (getSuggestions ctx sys).
      sug_pattern s \<in> set (learnedPatterns sys) \<and>
      relevance s = patternRelevance ctx (sug_pattern s) \<and>
      js_gt (relevance s) (Fin (3 / 10))"
    using collectSuggestions_member by blast
  moreover have "\<And>x. js_gt x (Fin (3 / 10)) \<Longrightarrow> x \<noteq> Fin (3 / 10)"
    by auto
  moreover have "length (getSuggestions ctx sys) \<le> 5"
    by (simp add: getSuggestions_def)
  ultimately show ?thesis by blast
qed

theorem getSuggestions_bounded_witness:
  "map (\<lambda>p. (ptype p, patternRelevance crowdedQuery p)) (learnedPatterns crowdedSystem) =
     [(CapabilityCombination, Fin (3 / 10)), (AvoidanceRule, Fin 1), (AvoidanceRule, Fin 1),
      (AvoidanceRule, Fin 1), (AvoidanceRule, Fin 1), (AvoidanceRule, Fin 1),
      (AvoidanceRule, Fin 1)] \<and>
   map (\<lambda>s. ptype (sug_pattern s)) (getSuggestions crowdedQuery crowdedSystem) =
     [AvoidanceRule, AvoidanceRule, AvoidanceRule, AvoidanceRule, AvoidanceRule] \<and>
   js_gt (relevance (hd (getSuggestions crowdedQuery crowdedSystem))) (Fin (3 / 10)) \<and>
   length (getSuggestions crowdedQuery crowdedSystem) \<le> 5"
proof -
  have store: "map (\<lambda>p. (ptype p, patternRelevance crowdedQuery p)) (learnedPatterns crowdedSystem) =
     [(CapabilityCombination, Fin (3 / 10)), (AvoidanceRule, Fin 1), (AvoidanceRule, Fin 1),
      (AvoidanceRule, Fin 1), (AvoidanceRule, Fin 1), (AvoidanceRule, Fin 1),
      (AvoidanceRule, Fin 1)]"
    by code_simp
  have types: "map (\<lambda>s. ptype (sug_pattern s)) (getSuggestions crowdedQuery crowdedSystem) =
     [AvoidanceRule, AvoidanceRule, AvoidanceRule, AvoidanceRule, AvoidanceRule]"
    by code_simp
  then have "getSuggestions crowdedQuery crowdedSystem \<noteq> []"
    by auto
  then have "hd (getSuggestions crowdedQuery crowdedSystem)
               \<in> set (getSuggestions crowdedQuery crowdedSystem)"
    by simp
  with getSuggestions_bounded [of crowdedQuery crowdedSystem] store types
  show ?thesis by blast
qed

lemma recordFailure_returns:
  assumes "recordFailure now fl sys = (Inr n, sys')"
  shows "length (learnedPatterns sys') = Suc (length (learnedPatterns sys)) \<and>
         butlast (learnedPatterns sys') = learnedPatterns sys \<and>
         ptype (last (learnedPatterns sys')) = AvoidanceRule \<and>
         avoidCombination (last (learnedPatterns sys')) = orEmpty (f_toolsUsed fl)"
  using assms
  by (auto simp: recordFailure_def generateId_def learnFromFailure_def Let_def newPattern_def
           split: sum.splits)

text \<open>
  C10: an avoidance rule with an empty \<^verbatim>\<open>avoidCombination\<close> has relevance 1 for every
  context that has a \<^verbatim>\<open>toolsToUse\<close> list, whatever the list holds, and so passes the
  threshold and is pushed as a suggestion. A call of \<^verbatim>\<open>recordFailure\<close> that returns, for
  a failure whose \<^verbatim>\<open>toolsUsed\<close> is absent or empty, appends such a rule.
\<close>

theorem empty_avoidance_rule_always_relevant:
  "(ptype p = AvoidanceRule \<and> avoidCombination p = [] \<and> p \<in> set (learnedPatterns sys) \<and>
    toolsToUse ctx = Some tools \<longrightarrow>
      patternRelevance ctx p = Fin 1 \<and>
      js_gt (patternRelevance ctx p) (Fin (3 / 10)) \<and>
      \<lparr> sug_pattern = p, relevance = Fin 1, reason = getSuggestionReason p \<rparr>
        \<in> set (collectSuggestions ctx (learnedPatterns sys))) \<and>
   ((f_toolsUsed fl = None \<or> f_toolsUsed fl = Some []) \<and>
    recordFailure now fl sys = (Inr n, sys') \<longrightarrow>
      length (learnedPatterns sys') = Suc (length (learnedPatterns sys)) \<and>
      ptype (last (learnedPatterns sys')) = AvoidanceRule \<and>
      avoidCombination (last (learnedPatterns sys')) = [])"
proof -
  have a: "patternRelevance ctx p = Fin 1"
    if "ptype p = AvoidanceRule" "avoidCombination p = []" "toolsToUse ctx = Some tools"
    using that by (simp add: patternRelevance_def)
  have b: "\<lparr> sug_pattern = p, relevance = Fin 1, reason = getSuggestionReason p \<rparr>
        \<in> set (collectSuggestions ctx (learnedPatterns sys))"
    if "ptype p = AvoidanceRule" "avoidCombination p = []" "toolsToUse ctx = Some tools"
       "p \<in> set (learnedPatterns sys)"
    using collectSuggestions_complete [of p "learnedPatterns sys" ctx] a that by simp
  have c: "length (learnedPatterns sys') = Suc (length (learnedPatterns sys)) \<and>
      ptype (last (learnedPatterns sys')) = AvoidanceRule \<and>
      avoidCombination (last (learnedPatterns sys')) = []"
    if "f_toolsUsed fl = None \<or> f_toolsUsed fl = Some []"
       "recordFailure now fl sys = (Inr n, sys')"
  proof -
    from that(1) have "orEmpty (f_toolsUsed fl) = []"
      by (auto simp: orEmpty_def)
    with recordFailure_returns [OF that(2)] show ?thesis
      by simp
  qed
  from a b c show ?thesis by auto
qed

theorem empty_avoidance_rule_witness:
  "recordFailure 7 (failureOf (Some ''connection timeout'') None) initialSystem =
     (Inr 0, snd (recordFailure 7 (failureOf (Some ''connection timeout'') None) initialSystem)) \<and>
   f_toolsUsed (failureOf (Some ''connection timeout'') None) = None \<and>
   toolsToUse browserQuery = Some [''browser''] \<and>
   avoidCombination (last (learnedPatterns
     (snd (recordFailure 7 (failureOf (Some ''connection timeout'') None) initialSystem)))) = [] \<and>
   patternRelevance browserQuery (last (learnedPatterns
     (snd (recordFailure 7 (failureOf (Some ''connection timeout'') None) initialSystem)))) = Fin 1"
proof -
  let ?fl = "failureOf (Some ''connection timeout'') None"
  let ?sys = "snd (recordFailure 7 ?fl initialSystem)"
  let ?p = "last (learnedPatterns ?sys)"
  have h1: "f_toolsUsed ?fl = None"
    by (simp add: failureOf_def)
  have h2: "recordFailure 7 ?fl initialSystem = (Inr 0, ?sys)"
    by code_simp
  have h3: "toolsToUse browserQuery = Some [''browser'']"
    by (simp add: browserQuery_def)
  from h1 h2
    empty_avoidance_rule_always_relevant
      [where fl = ?fl and now = 7 and sys = initialSystem and n = 0 and sys' = ?sys]
  have c: "length (learnedPatterns ?sys) = Suc (length (learnedPatterns initialSystem))"
          "ptype ?p = AvoidanceRule" "avoidCombination ?p = []"
    by blast+
  from c(1) have "learnedPatterns ?sys \<noteq> []"
    by auto
  then have h4: "?p \<in> set (learnedPatterns ?sys)"
    by simp
  from c h3 h4
    empty_avoidance_rule_always_relevant
      [where p = ?p and sys = ?sys and ctx = browserQuery and tools = "[''browser'']"]
  have "patternRelevance browserQuery ?p = Fin 1"
    by blast
  with h1 h2 h3 c show ?thesis
    by blast
qed

section \<open>Properties of the Template Extractor\<close>

text \<open>
  C7 does not hold of the code: on a match the count, the examples and \<^verbatim>\<open>lastUsed\<close> are
  updated as claimed, but the duration is written under the test
  \<^verbatim>\<open>!template.estimatedDuration\<close>, the opposite of the claim. A template extracted with
  the duration 1000 keeps 1000 when a matching workflow of duration 2000 is merged, and
  loses its estimate (it becomes \<^verbatim>\<open>undefined\<close>) when a matching workflow without a
  duration is merged.
\<close>

theorem template_merge_duration_inverted:
  "(let e1 = snd (extractFromWorkflow 10 (scrapeWorkflow (Some (Fin 1000))) emptyExtractor);
        r2 = extractFromWorkflow 20 (scrapeWorkflow (Some (Fin 2000))) e1;
        r3 = extractFromWorkflow 30 (scrapeWorkflow None) (snd r2)
    in map t_estimatedDuration (skillTemplates e1) = [Some (Fin 1000)] \<and>
       map_option fst (fst r2) = Some True \<and>
       map (\<lambda>t. (successCount t, length (examples t), lastUsed t)) (skillTemplates (snd r2)) =
         [(2, 2, 20)] \<and>
       map t_estimatedDuration (skillTemplates (snd r2)) = [Some (Fin 1000)] \<and>
       map_option fst (fst r3) = Some True \<and>
       map (\<lambda>t. (successCount t, length (examples t), lastUsed t)) (skillTemplates (snd r3)) =
         [(3, 3, 30)] \<and>
       map t_estimatedDuration (skillTemplates (snd r3)) = [None])"
  by code_simp

section \<open>Properties of the Trending Scorer\<close>

subsection \<open>Rounding to a double\<close>

lemma powi_pos: "0 < (2::rat) powi k"
  by (simp add: zero_less_power_int)

lemma powi_nat: "0 \<le> k \<Longrightarrow> (2::rat) powi k = of_int (2 ^ nat k)"
  by (simp add: power_int_nonneg_exp)

lemma powi_less_iff: "(2::rat) powi a < 2 powi b \<longleftrightarrow> a < b"
proof
  assume l: "(2::rat) powi a < 2 powi b"
  show "a < b"
  proof (rule ccontr)
    assume "\<not> a < b"
    then have "b \<le> a" by simp
    then have "(2::rat) powi b \<le> 2 powi a"
      by (intro power_int_increasing) simp_all
    with l show False by simp
  qed
next
  assume "a < b"
  then show "(2::rat) powi a < 2 powi b"
    by (intro power_int_strict_increasing) simp_all
qed

lemma powi_le_iff: "(2::rat) powi a \<le> 2 powi b \<longleftrightarrow> a \<le> b"
  using powi_less_iff [of b a] by (simp add: not_less [symmetric])

lemma binade_bounds:
  assumes "x \<noteq> 0"
  shows "2 powi binade x \<le> \<bar>x\<bar>" and "\<bar>x\<bar> < 2 powi (binade x + 1)"
proof -
  obtain p q where pq: "quotient_of \<bar>x\<bar> = (p, q)"
    by (cases "quotient_of \<bar>x\<bar>") auto
  then have q: "0 < q" and x: "\<bar>x\<bar> = of_int p / of_int q"
    by (simp_all add: quotient_of_denom_pos quotient_of_div)
  with assms have p: "0 < p"
    by (metis abs_zero abs_ge_zero assms divide_pos_pos of_int_0_less_iff of_int_pos
          zero_less_abs_iff zero_less_divide_iff not_less order_less_le)
  let ?bp = "bitlen p" and ?bq = "bitlen q"
  from bitlen_bounds [OF p] have bp: "2 ^ nat (?bp - 1) \<le> p" "p < 2 ^ nat ?bp"
    by simp_all
  from bitlen_bounds [OF q] have bq: "2 ^ nat (?bq - 1) \<le> q" "q < 2 ^ nat ?bq"
    by simp_all
  have bp1: "1 \<le> ?bp" and bq1: "1 \<le> ?bq"
    using p q by (simp_all add: bitlen_alt_def)
  have P1: "(2::rat) powi (?bp - 1) \<le> of_int p"
    using bp(1) bp1 by (simp add: powi_nat of_int_le_iff [symmetric] del: of_int_le_iff)
  have P2: "of_int p < (2::rat) powi ?bp"
    using bp(2) bp1 by (simp add: powi_nat of_int_less_iff [symmetric] del: of_int_less_iff)
  have Q1: "(2::rat) powi (?bq - 1) \<le> of_int q"
    using bq(1) bq1 by (simp add: powi_nat of_int_le_iff [symmetric] del: of_int_le_iff)
  have Q2: "of_int q < (2::rat) powi ?bq"
    using bq(2) bq1 by (simp add: powi_nat of_int_less_iff [symmetric] del: of_int_less_iff)
  let ?d = "?bp - ?bq"
  have "of_int p / of_int q < (2::rat) powi ?bp / 2 powi (?bq - 1)"
    using p P2 Q1 by (intro frac_less) (simp_all add: powi_pos)
  then have up: "\<bar>x\<bar> < 2 powi (?d + 1)"
    by (simp add: x power_int_diff [symmetric] algebra_simps)
  have "(2::rat) powi (?bp - 1) / 2 powi ?bq < of_int p / of_int q"
    using q P1 Q2 by (intro frac_less2) (simp_all add: powi_pos)
  then have lo: "2 powi (?d - 1) < \<bar>x\<bar>"
    by (simp add: x power_int_diff [symmetric] algebra_simps)
  show "2 powi binade x \<le> \<bar>x\<bar>"
    using lo by (simp add: binade_def pq Let_def)
  show "\<bar>x\<bar> < 2 powi (binade x + 1)"
    using up by (auto simp add: binade_def pq Let_def not_le)
qed

lemma binade_unique:
  assumes "2 powi e \<le> \<bar>x\<bar>" and "\<bar>x\<bar> < 2 powi (e + 1)"
  shows "binade x = e"
proof -
  have "0 < \<bar>x\<bar>"
    using powi_pos [of e] assms(1) by (rule less_le_trans)
  then have nz: "x \<noteq> 0"
    by simp
  note b = binade_bounds [OF nz]
  from b(1) assms(2) have "(2::rat) powi binade x < 2 powi (e + 1)"
    by simp
  then have 1: "binade x < e + 1"
    by (simp only: powi_less_iff)
  from assms(1) b(2) have "(2::rat) powi e < 2 powi (binade x + 1)"
    by simp
  then have 2: "e < binade x + 1"
    by (simp only: powi_less_iff)
  from 1 2 show ?thesis by simp
qed

lemma roundHalfEven_cases: "roundHalfEven y = \<lfloor>y\<rfloor> \<or> roundHalfEven y = \<lfloor>y\<rfloor> + 1"
  by (simp add: roundHalfEven_def Let_def)

lemma roundHalfEven_of_int: "roundHalfEven (of_int n) = n"
  by (simp add: roundHalfEven_def)

lemma roundHalfEven_ge:
  assumes "of_int n \<le> y"
  shows "n \<le> roundHalfEven y"
proof -
  from assms have "n \<le> \<lfloor>y\<rfloor>"
    by (simp only: le_floor_iff)
  with roundHalfEven_cases [of y] show ?thesis
    by linarith
qed

lemma roundHalfEven_less:
  assumes "y < of_int n - 1 / 2"
  shows "roundHalfEven y < n"
proof -
  have f: "of_int \<lfloor>y\<rfloor> \<le> y" by simp
  with assms have "of_int \<lfloor>y\<rfloor> < (of_int n :: rat)" by linarith
  then have fl: "\<lfloor>y\<rfloor> < n" by (simp only: of_int_less_iff)
  show ?thesis
  proof (cases "\<lfloor>y\<rfloor> = n - 1")
    case True
    with assms have "y - of_int \<lfloor>y\<rfloor> < 1 / 2" by simp
    then have "roundHalfEven y = \<lfloor>y\<rfloor>"
      by (simp add: roundHalfEven_def Let_def)
    with fl show ?thesis by simp
  next
    case False
    with fl have "\<lfloor>y\<rfloor> + 1 < n" by simp
    with roundHalfEven_cases [of y] fl show ?thesis by auto
  qed
qed

text \<open>Rounding, once the binade of the argument is known.\<close>

lemma toDouble_eq:
  assumes "2 powi e \<le> \<bar>x\<bar>" and "\<bar>x\<bar> < 2 powi (e + 1)" and "- 1022 \<le> e"
    and "roundHalfEven (x / 2 powi (e - 52)) = n"
    and "\<bar>of_int n * 2 powi (e - 52)\<bar> < (2::rat) powi 1024"
  shows "toDouble x = Fin (of_int n * 2 powi (e - 52))"
proof -
  have "0 < \<bar>x\<bar>"
    using powi_pos [of e] assms(1) by (rule less_le_trans)
  then have nz: "x \<noteq> 0"
    by simp
  have b: "binade x = e"
    using assms(1,2) by (rule binade_unique)
  with assms(3) have m: "max (binade x) (- 1022) = e"
    by simp
  show ?thesis
    using nz assms(4,5) by (simp add: toDouble_def m Let_def not_le [symmetric])
qed

lemma toDouble_int:
  assumes "\<bar>n\<bar> < 2 ^ 53"
  shows "toDouble (of_int n) = Fin (of_int n)"
proof (cases "n = 0")
  case True
  then show ?thesis by (simp add: toDouble_def)
next
  case False
  let ?x = "of_int n :: rat"
  let ?e = "binade ?x"
  have nz: "?x \<noteq> 0" using False by simp
  note b = binade_bounds [OF nz]
  from assms have "(of_int \<bar>n\<bar> :: rat) < of_int (2 ^ 53)"
    by (simp only: of_int_less_iff)
  then have x53: "\<bar>?x\<bar> < 2 powi 53"
    by simp
  with b(1) have "(2::rat) powi ?e < 2 powi 53" by simp
  then have e53: "?e < 53" by (simp only: powi_less_iff)
  from False have "1 \<le> \<bar>n\<bar>"
    by linarith
  then have "(of_int 1 :: rat) \<le> of_int \<bar>n\<bar>"
    by (simp only: of_int_le_iff)
  then have "1 \<le> \<bar>?x\<bar>"
    by simp
  with b(2) have "(2::rat) powi 0 < 2 powi (?e + 1)" by simp
  then have e0: "0 \<le> ?e" by (simp only: powi_less_iff)
  have q: "(2::rat) powi (?e - 52) = 1 / of_int (2 ^ nat (52 - ?e))"
    using e53 powi_nat [of "52 - ?e"] power_int_minus_divide [of "2::rat" "52 - ?e"] by simp
  have r: "roundHalfEven (?x / 2 powi (?e - 52)) = n * 2 ^ nat (52 - ?e)"
    using roundHalfEven_of_int [of "n * 2 ^ nat (52 - ?e)"] by (simp add: q)
  have v: "of_int (n * 2 ^ nat (52 - ?e)) * (2::rat) powi (?e - 52) = ?x"
    by (simp add: q)
  have "\<bar>?x\<bar> < 2 powi 1024"
    using x53 powi_less_iff [of 53 1024] by linarith
  then have bound: "\<bar>of_int (n * 2 ^ nat (52 - ?e)) * (2::rat) powi (?e - 52)\<bar> < 2 powi 1024"
    by (simp only: v)
  have e1022: "- 1022 \<le> ?e"
    using e0 by simp
  from toDouble_eq [OF b(1) b(2) e1022 r bound] show ?thesis
    by (simp only: v)
qed

lemma floor_ddiv_week:
  assumes "0 \<le> a" and "a < 2 ^ 53"
  shows "js_floor (ddiv (Fin (of_int a)) (Fin 604800000)) = Fin (of_int (a div 604800000))"
proof (cases "a = 0")
  case True
  then show ?thesis by (simp add: toDouble_def)
next
  case False
  with assms have apos: "0 < a" by simp
  let ?W = "604800000 :: int"
  let ?x = "of_int a / 604800000 :: rat"
  let ?k = "a div ?W"
  have xpos: "0 < ?x" using apos by simp
  then have nz: "?x \<noteq> 0" by simp
  note b = binade_bounds [OF nz]
  let ?E = "max (binade ?x) (- 1022)"
  have "(of_int a :: rat) < of_int (2 ^ 53)"
    using assms(2) by (simp only: of_int_less_iff)
  then have x24: "?x < 2 powi 24"
    by simp
  with b(1) xpos have "(2::rat) powi binade ?x < 2 powi 24"
    by simp
  then have "binade ?x < 24"
    by (simp only: powi_less_iff)
  then have E: "?E \<le> 23"
    by simp
  define m where "m = nat (52 - ?E)"
  have m29: "29 \<le> m"
    using E by (simp add: m_def)
  define N :: rat where "N = 2 ^ m"
  have "(2::rat) ^ 29 \<le> 2 ^ m"
    using m29 by (intro power_increasing) simp_all
  then have N29: "536870912 \<le> N"
    by (simp add: N_def)
  have q: "(2::rat) powi (?E - 52) = 1 / N"
    using E by (simp add: N_def m_def power_int_minus_divide [of "2::rat" "52 - ?E", simplified] power_int_nonneg_exp)
  have Nint: "N = of_int (2 ^ m)"
    by (simp add: N_def)
  let ?y = "?x * N"
  let ?R = "roundHalfEven ?y"
  have ak: "?k * ?W \<le> a" and ak1: "a \<le> ?k * ?W + ?W - 1"
    using div_mult_mod_eq [of a ?W] pos_mod_bound [of ?W a] pos_mod_sign [of ?W a]
    by linarith+
  have kx: "of_int ?k \<le> ?x"
    by simp
  have "(of_int a :: rat) \<le> of_int (?k * ?W + ?W - 1)"
    using ak1 by (simp only: of_int_le_iff)
  then have xk1: "?x \<le> of_int ?k + 1 - 1 / 604800000"
    by (simp add: field_simps)
  have Npos: "0 < N"
    using N29 by simp
  have "of_int ?k * N \<le> ?y"
    using kx Npos by (intro mult_right_mono) simp_all
  then have lo: "of_int (?k * 2 ^ m) \<le> ?y"
    by (simp add: Nint)
  have "?y \<le> (of_int ?k + 1 - 1 / 604800000) * N"
    using xk1 Npos by (intro mult_right_mono) simp_all
  also have "\<dots> = (of_int ?k + 1) * N - N / 604800000"
    by (simp add: algebra_simps)
  also have "\<dots> < (of_int ?k + 1) * N - 1 / 2"
    using N29 by simp
  finally have hi: "?y < of_int ((?k + 1) * 2 ^ m) - 1 / 2"
    by (simp add: Nint)
  from roundHalfEven_ge [OF lo] have R1: "?k * 2 ^ m \<le> ?R" .
  from roundHalfEven_less [OF hi] have R2: "?R < (?k + 1) * 2 ^ m" .
  let ?r = "of_int ?R * (1 / N)"
  have "of_int (?k * 2 ^ m) \<le> (of_int ?R :: rat)"
    using R1 by (simp only: of_int_le_iff)
  then have "of_int ?k * N \<le> of_int ?R"
    by (simp add: Nint)
  then have r1: "of_int ?k \<le> ?r"
    using Npos by (simp add: pos_le_divide_eq)
  have "(of_int ?R :: rat) < of_int ((?k + 1) * 2 ^ m)"
    using R2 by (simp only: of_int_less_iff)
  then have "of_int ?R < (of_int ?k + 1) * N"
    by (simp add: Nint)
  then have r2: "?r < of_int ?k + 1"
    using Npos by (simp add: pos_divide_less_eq)
  have fl: "\<lfloor>?r\<rfloor> = ?k"
    using r1 r2 by (simp add: floor_eq_iff)
  have k0: "0 \<le> ?k"
    using assms(1) by (simp add: pos_imp_zdiv_nonneg_iff)
  have "?r < 2 powi 24 + 1"
    using r2 kx x24 by linarith
  then have "?r < 2 powi 1024"
    by simp
  moreover have "(0::rat) \<le> of_int ?k"
    using k0 by (simp only: of_int_0_le_iff)
  then have "0 \<le> ?r"
    using r1 by linarith
  ultimately have nov: "\<not> 2 powi 1024 \<le> \<bar>?r\<bar>"
    by simp
  have "toDouble ?x = Fin ?r"
    using nz nov by (simp add: toDouble_def Let_def q)
  then show ?thesis
    using fl by simp
qed

subsection \<open>The age penalty and the score\<close>

lemma toDouble_zero: "toDouble 0 = Fin 0"
  by (simp add: toDouble_def)

lemma intDouble_exact: "\<bar>i\<bar> < 2 ^ 53 \<Longrightarrow> intDouble i = Fin (of_int i)"
  by (simp add: intDouble_def toDouble_int)

lemma agePenalty_exact:
  assumes "0 \<le> sp_createdAt p" and "sp_createdAt p \<le> now" and "now < 2 ^ 53"
  shows "agePenalty now p = Fin (of_int ((now - sp_createdAt p) div 604800000))"
proof -
  let ?c = "sp_createdAt p"
  have n: "intDouble now = Fin (of_int now)" and c: "intDouble ?c = Fin (of_int ?c)"
    using assms by (simp_all add: intDouble_exact)
  have w: "intDouble weekMillis = Fin 604800000"
    using intDouble_exact [of weekMillis] by (simp add: weekMillis_def)
  have a: "0 \<le> now - ?c" "now - ?c < 2 ^ 53"
    using assms by simp_all
  then have "toDouble (of_int (now - ?c)) = Fin (of_int (now - ?c))"
    by (intro toDouble_int) simp
  then have age: "dsub (intDouble now) (intDouble ?c) = Fin (of_int (now - ?c))"
    by (simp add: n c)
  show ?thesis
    unfolding agePenalty_def Let_def age w by (rule floor_ddiv_week [OF a])
qed

lemma toDouble_7_100: "toDouble (7 / 100) = Fin (1261007895663739 / 18014398509481984)"
proof -
  have r: "roundHalfEven ((7 / 100) / 2 powi (- 4 - 52)) = 5044031582654956"
    by code_simp
  from toDouble_eq [where x = "7 / 100" and e = "- 4" and n = "5044031582654956", OF _ _ _ r]
  show ?thesis
    by simp
qed

lemma dmul_7_100: "dmul (Fin (1261007895663739 / 18014398509481984)) (Fin 100) = Fin (7881299347898369 / 1125899906842624)"
proof -
  have r: "roundHalfEven ((1261007895663739 / 18014398509481984 * 100) / 2 powi (2 - 52)) = 7881299347898369"
    by code_simp
  from toDouble_eq [where x = "1261007895663739 / 18014398509481984 * 100" and e = "2" and n = "7881299347898369", OF _ _ _ r]
  show ?thesis
    by simp
qed

lemma dadd_7_zero: "dadd (Fin (7881299347898369 / 1125899906842624)) (Fin 0) = Fin (7881299347898369 / 1125899906842624)"
proof -
  have r: "roundHalfEven ((7881299347898369 / 1125899906842624 + 0) / 2 powi (2 - 52)) = 7881299347898369"
    by code_simp
  from toDouble_eq [where x = "7881299347898369 / 1125899906842624 + 0" and e = "2" and n = "7881299347898369", OF _ _ _ r]
  show ?thesis
    by simp
qed

lemma dsub_week_15: "dsub (Fin (7881299347898369 / 1125899906842624)) (Fin 15) = Fin (- (9007199254740991 / 1125899906842624))"
proof -
  have r: "roundHalfEven ((7881299347898369 / 1125899906842624 - 15) / 2 powi (2 - 52)) = - 9007199254740991"
    by code_simp
  from toDouble_eq [where x = "7881299347898369 / 1125899906842624 - 15" and e = "2" and n = "- 9007199254740991", OF _ _ _ r]
  show ?thesis
    by simp
qed

lemma dsub_week_16: "dsub (Fin (7881299347898369 / 1125899906842624)) (Fin 16) = Fin (- 9)"
proof -
  have r: "roundHalfEven ((7881299347898369 / 1125899906842624 - 16) / 2 powi (3 - 52)) = - 5066549580791808"
    by code_simp
  from toDouble_eq [where x = "7881299347898369 / 1125899906842624 - 16" and e = "3" and n = "- 5066549580791808", OF _ _ _ r]
  show ?thesis
    by simp
qed

lemma dsub_scores: "dsub (Fin (- (9007199254740991 / 1125899906842624))) (Fin (- 9)) = Fin (1125899906842625 / 1125899906842624)"
proof -
  have r: "roundHalfEven ((- (9007199254740991 / 1125899906842624) - (- 9)) / 2 powi (0 - 52)) = 4503599627370500"
    by code_simp
  from toDouble_eq [where x = "- (9007199254740991 / 1125899906842624) - (- 9)" and e = "0" and n = "4503599627370500", OF _ _ _ r]
  show ?thesis
    by simp
qed

lemma length_sortBy: "length (sortBy cmp xs) = length xs"
  by (induction xs) (auto simp: sortBy_def length_insertBy)

lemma dsub_int:
  assumes "\<bar>i - j\<bar> < 2 ^ 53"
  shows "dsub (Fin (of_int i)) (Fin (of_int j)) = Fin (of_int (i - j))"
  using toDouble_int [OF assms] by simp

lemma netVotes_exact:
  assumes "vs key = Some v" and "\<bar>up v\<bar> < 2 ^ 52" and "\<bar>down v\<bar> < 2 ^ 52"
  shows "netVotes vs key = Fin (of_int (up v - down v))"
proof -
  from assms have "intDouble (up v) = Fin (of_int (up v))"
    and "intDouble (down v) = Fin (of_int (down v))"
    by (simp_all add: intDouble_exact)
  moreover from assms have "\<bar>up v - down v\<bar> < 2 ^ 53"
    by simp
  ultimately show ?thesis
    using assms(1) by (simp only: netVotes_def option.case dsub_int)
qed

lemma agePenalty_week_later:
  assumes "0 \<le> sp_createdAt p" and "sp_createdAt p \<le> now" and "now + 604800000 < 2 ^ 53"
  shows "agePenalty (now + 604800000) p =
           Fin (of_int ((now - sp_createdAt p) div 604800000 + 1))"
proof -
  have "(now + 604800000 - sp_createdAt p) div 604800000 =
        (now - sp_createdAt p + 604800000) div 604800000"
    by (simp add: algebra_simps)
  also have "\<dots> = (now - sp_createdAt p) div 604800000 + 1"
    by simp
  finally show ?thesis
    using agePenalty_exact [of p "now + 604800000"] assms by simp
qed

lemma toDouble_9_10: "toDouble (9 / 10) = Fin (8106479329266893 / 9007199254740992)"
proof -
  have r: "roundHalfEven ((9 / 10) / 2 powi (- 1 - 52)) = 8106479329266893"
    by code_simp
  from toDouble_eq [where x = "9 / 10" and e = "- 1" and n = "8106479329266893", OF _ _ _ r]
  show ?thesis
    by simp
qed

lemma dmul_9_10: "dmul (Fin (8106479329266893 / 9007199254740992)) (Fin 100) = Fin 90"
proof -
  have r: "roundHalfEven ((8106479329266893 / 9007199254740992 * 100) / 2 powi (6 - 52)) =
             6333186975989760"
    by code_simp
  from toDouble_eq [where x = "8106479329266893 / 9007199254740992 * 100" and e = "6"
                      and n = "6333186975989760", OF _ _ _ r]
  show ?thesis
    by simp
qed

text \<open>
  C9, as stated, fails: the score is computed on doubles, and the last subtraction rounds.
  For a pattern created at time 0 with the success rate written 0.07 and no votes,
  \<^verbatim>\<open>0.07 * 100\<close> is \<open>7 + 1 / 2 ^ 50\<close>; after 15 weeks the score is \<open>- (8 - 1 / 2 ^ 50)\<close>,
  printed \<^verbatim>\<open>-7.999999999999999\<close>, and one week later it is \<open>- 9\<close>, which is lower by
  \<open>1 + 1 / 2 ^ 50\<close>, not by 1.
\<close>

theorem trending_score_rounding_counterexample:
  "sp_successRate (ratedPattern ''p'' (7 / 100) 0) =
     Fin (1261007895663739 / 18014398509481984) \<and>
   score (scorePattern (15 * 604800000) Map.empty (ratedPattern ''p'' (7 / 100) 0)) =
     Fin (- (9007199254740991 / 1125899906842624)) \<and>
   score (scorePattern (16 * 604800000) Map.empty (ratedPattern ''p'' (7 / 100) 0)) =
     Fin (- 9) \<and>
   Fin (- 9) \<noteq> Fin (- (9007199254740991 / 1125899906842624) - 1) \<and>
   dsub (Fin (- (9007199254740991 / 1125899906842624))) (Fin (- 9)) =
     Fin (1125899906842625 / 1125899906842624)"
proof -
  let ?p = "ratedPattern ''p'' (7 / 100) 0"
  have sr: "sp_successRate ?p = Fin (1261007895663739 / 18014398509481984)"
    by (simp add: ratedPattern_def toDouble_7_100)
  have nv: "netVotes Map.empty (''pattern:'' @ sp_id ?p) = Fin 0"
    by (simp add: netVotes_def toDouble_zero)
  have p15: "agePenalty (15 * 604800000) ?p = Fin 15"
    using agePenalty_exact [of ?p "15 * 604800000"] by (simp add: ratedPattern_def)
  have p16: "agePenalty (16 * 604800000) ?p = Fin 16"
    using agePenalty_exact [of ?p "16 * 604800000"] by (simp add: ratedPattern_def)
  have sc: "score (scorePattern t Map.empty ?p) =
              dsub (dadd (dmul (sp_successRate ?p) (Fin 100))
                         (netVotes Map.empty (''pattern:'' @ sp_id ?p)))
                   (agePenalty t ?p)" for t
    by (simp add: scorePattern_def Let_def)
  have s15: "score (scorePattern (15 * 604800000) Map.empty ?p) =
               Fin (- (9007199254740991 / 1125899906842624))"
    by (simp only: sc sr nv p15 dmul_7_100 dadd_7_zero dsub_week_15)
  have s16: "score (scorePattern (16 * 604800000) Map.empty ?p) = Fin (- 9)"
    by (simp only: sc sr nv p16 dmul_7_100 dadd_7_zero dsub_week_16)
  have ne: "Fin (- 9) \<noteq> Fin (- (9007199254740991 / 1125899906842624) - 1)"
    by simp
  from sr s15 s16 ne dsub_scores show ?thesis
    by (intro conjI)
qed

text \<open>
  C9, amended. Every entry \<^verbatim>\<open>getTrendingPatterns\<close> returns is a shared pattern with its
  score, and all of them are returned up to the limit. The score is
  \<open>successRate * 100 + (up - down) - penalty\<close>, evaluated from left to right with every
  operation rounded to a double; the difference of the vote counts is exact. For a
  pattern created at or after time 0 and not in the future, up to \<open>2 ^ 53\<close> milliseconds,
  the penalty is exactly the integer quotient of the age in milliseconds by 604800000, it
  is not negative, and one week later it is exactly 1 greater. So the later score is the
  double nearest to the same rounded sum \<open>successRate * 100 + votes\<close> less a penalty one
  greater: it is exactly 1 lower whenever that sum is an integer, and otherwise 1 lower
  up to the rounding of the last subtraction.
\<close>

theorem trending_score_weekly_decay:
  fixes now :: int and p :: shared_pattern and vs :: "string \<rightharpoonup> vote"
  defines "key \<equiv> ''pattern:'' @ sp_id p"
  defines "base \<equiv> dadd (dmul (sp_successRate p) (Fin 100)) (netVotes vs key)"
  defines "k \<equiv> (now - sp_createdAt p) div 604800000"
  shows "set (getTrendingPatterns limit now cs)
           \<subseteq> scorePattern now (votes cs) ` set (sharedPatterns cs) \<and>
         length (getTrendingPatterns limit now cs) = min limit (length (sharedPatterns cs)) \<and>
         score (scorePattern now vs p) = dsub base (agePenalty now p) \<and>
         (vs key = None \<longrightarrow> netVotes vs key = Fin 0) \<and>
         (\<forall>v. vs key = Some v \<and> \<bar>up v\<bar> < 2 ^ 52 \<and> \<bar>down v\<bar> < 2 ^ 52 \<longrightarrow>
              netVotes vs key = Fin (of_int (up v - down v))) \<and>
         (0 \<le> sp_createdAt p \<and> sp_createdAt p \<le> now \<and> now + 604800000 < 2 ^ 53 \<longrightarrow>
            agePenalty now p = Fin (of_int k) \<and> 0 \<le> k \<and>
            agePenalty (now + 604800000) p = Fin (of_int (k + 1)) \<and>
            score (scorePattern now vs p) = dsub base (Fin (of_int k)) \<and>
            score (scorePattern (now + 604800000) vs p) = dsub base (Fin (of_int (k + 1))) \<and>
            (\<forall>b. base = Fin (of_int b) \<and> \<bar>b\<bar> < 2 ^ 52 \<longrightarrow>
               score (scorePattern now vs p) = Fin (of_int (b - k)) \<and>
               score (scorePattern (now + 604800000) vs p) = Fin (of_int (b - k) - 1)))"
proof -
  have "set (getTrendingPatterns limit now cs)
          \<subseteq> set (map (scorePattern now (votes cs)) (sharedPatterns cs))"
    unfolding getTrendingPatterns_def
    using set_take_subset [of limit "sortBy (\<lambda>a b. dsub (score b) (score a))
            (map (scorePattern now (votes cs)) (sharedPatterns cs))"]
    by (simp only: set_sortBy)
  then have a: "set (getTrendingPatterns limit now cs)
     \<subseteq> scorePattern now (votes cs) ` set (sharedPatterns cs)"
    by simp
  have b: "length (getTrendingPatterns limit now cs) = min limit (length (sharedPatterns cs))"
    by (simp add: getTrendingPatterns_def length_sortBy min.commute)
  have sc: "score (scorePattern t vs p) = dsub base (agePenalty t p)" for t
    by (simp add: scorePattern_def Let_def base_def key_def)
  have n0: "netVotes vs key = Fin 0" if "vs key = None"
    using that by (simp add: netVotes_def toDouble_def)
  have n1: "netVotes vs key = Fin (of_int (up v - down v))"
    if "vs key = Some v" "\<bar>up v\<bar> < 2 ^ 52" "\<bar>down v\<bar> < 2 ^ 52" for v
    using that by (rule netVotes_exact)
  have h: "agePenalty now p = Fin (of_int k) \<and> 0 \<le> k \<and>
            agePenalty (now + 604800000) p = Fin (of_int (k + 1)) \<and>
            score (scorePattern now vs p) = dsub base (Fin (of_int k)) \<and>
            score (scorePattern (now + 604800000) vs p) = dsub base (Fin (of_int (k + 1))) \<and>
            (\<forall>b. base = Fin (of_int b) \<and> \<bar>b\<bar> < 2 ^ 52 \<longrightarrow>
               score (scorePattern now vs p) = Fin (of_int (b - k)) \<and>
               score (scorePattern (now + 604800000) vs p) = Fin (of_int (b - k) - 1))"
    if H: "0 \<le> sp_createdAt p" "sp_createdAt p \<le> now" "now + 604800000 < 2 ^ 53"
  proof -
    from H have "now < 2 ^ 53" by simp
    from agePenalty_exact [OF H(1,2) this] have p0: "agePenalty now p = Fin (of_int k)"
      by (simp add: k_def)
    from agePenalty_week_later [OF H] have p1: "agePenalty (now + 604800000) p = Fin (of_int (k + 1))"
      by (simp add: k_def)
    have k0: "0 \<le> k"
      using H by (simp add: k_def pos_imp_zdiv_nonneg_iff)
    have "k * 604800000 \<le> now - sp_createdAt p"
      unfolding k_def using div_mult_mod_eq [of "now - sp_createdAt p" 604800000]
        pos_mod_sign [of 604800000 "now - sp_createdAt p"] by linarith
    with H have kb: "k + 1 < 2 ^ 52"
      by simp
    have i: "score (scorePattern now vs p) = Fin (of_int (b - k)) \<and>
             score (scorePattern (now + 604800000) vs p) = Fin (of_int (b - k) - 1)"
      if B: "base = Fin (of_int b)" "\<bar>b\<bar> < 2 ^ 52" for b
    proof -
      from B(2) k0 kb have "\<bar>b - k\<bar> < 2 ^ 53" and "\<bar>b - (k + 1)\<bar> < 2 ^ 53"
        by simp_all
      then have "dsub (Fin (of_int b)) (Fin (of_int k)) = Fin (of_int (b - k))"
        and "dsub (Fin (of_int b)) (Fin (of_int (k + 1))) = Fin (of_int (b - (k + 1)))"
        by (simp_all only: dsub_int)
      then show ?thesis
        by (simp add: sc p0 p1 B(1) algebra_simps)
    qed
    from p0 p1 k0 i show ?thesis
      by (simp only: sc) blast
  qed
  from a b sc [of now] n0 n1 h show ?thesis
    by blast
qed

theorem trending_score_weekly_decay_witness:
  "sp_createdAt (ratedPattern ''old'' (9 / 10) 0) = 0 \<and>
   dadd (dmul (sp_successRate (ratedPattern ''old'' (9 / 10) 0)) (Fin 100))
        (netVotes (votes twoPatternCommunity) ''pattern:old'') = Fin 95 \<and>
   agePenalty 0 (ratedPattern ''old'' (9 / 10) 0) = Fin 0 \<and>
   agePenalty (0 + 604800000) (ratedPattern ''old'' (9 / 10) 0) = Fin 1 \<and>
   score (scorePattern 0 (votes twoPatternCommunity) (ratedPattern ''old'' (9 / 10) 0)) = Fin 95 \<and>
   score (scorePattern (0 + 604800000) (votes twoPatternCommunity)
            (ratedPattern ''old'' (9 / 10) 0)) = Fin 94"
proof -
  let ?old = "ratedPattern ''old'' (9 / 10) 0"
  let ?vs = "votes twoPatternCommunity"
  have c: "sp_createdAt ?old = 0" and i: "sp_id ?old = ''old''"
    and sr: "sp_successRate ?old = Fin (8106479329266893 / 9007199254740992)"
    by (simp_all add: ratedPattern_def toDouble_9_10)
  have v: "?vs ''pattern:old'' = Some \<lparr> up = 6, down = 1 \<rparr>"
    by (simp add: twoPatternCommunity_def)
  note main = trending_score_weekly_decay [of 10 0 twoPatternCommunity ?vs ?old]
  from main v have nv: "netVotes ?vs ''pattern:old'' = Fin 5"
    by (simp add: i)
  have t95: "toDouble 95 = Fin 95" and t94: "toDouble 94 = Fin 94"
    using toDouble_int [of 95] toDouble_int [of 94] by simp_all
  have "dadd (Fin 90) (Fin 5) = Fin (of_int 95)"
    using t95 by simp
  then have base: "dadd (dmul (sp_successRate ?old) (Fin 100)) (netVotes ?vs ''pattern:old'') =
                     Fin (of_int 95)"
    by (simp only: sr dmul_9_10 nv)
  have H: "0 \<le> sp_createdAt ?old" "sp_createdAt ?old \<le> 0" "(0::int) + 604800000 < 2 ^ 53"
    by (simp_all add: c)
  from main H base
  have "agePenalty 0 ?old = Fin 0 \<and>
        agePenalty (0 + 604800000) ?old = Fin 1 \<and>
        score (scorePattern 0 ?vs ?old) = Fin 95 \<and>
        score (scorePattern (0 + 604800000) ?vs ?old) = Fin 94"
    by (simp add: i c t95 t94)
  with c base show ?thesis
    by simp
qed

section \<open>Properties of the Pattern Miner\<close>

lemma sort_eq_iff_mset: "sort xs = sort ys \<longleftrightarrow> mset xs = mset ys"
proof
  assume "sort xs = sort ys"
  then have "mset (sort xs) = mset (sort ys)" by simp
  then show "mset xs = mset ys" by simp
next
  assume "mset xs = mset ys"
  then have "sorted_list_of_multiset (mset xs) = sorted_list_of_multiset (mset ys)" by simp
  then show "sort xs = sort ys" by simp
qed

lemma sameIdentity_iff:
  "sameIdentity p q \<longleftrightarrow> identityOf p = identityOf q \<and> identityOf p \<noteq> None"
  by (cases "ptype p"; cases "ptype q")
     (auto simp: sameIdentity_def identityOf_def sort_eq_iff_mset)

lemma sort_sort_id: "sort (sort xs) = sort (xs :: string list)"
  by (simp add: sorted_sort_id)

lemma sortedCaps_refl: "sortedCaps p p"
  by (simp add: sortedCaps_def)

lemma sortedCaps_trans: "sortedCaps p q \<Longrightarrow> sortedCaps q r \<Longrightarrow> sortedCaps p r"
  by (auto simp: sortedCaps_def sort_sort_id)

lemma sortedCaps_fields:
  assumes "sortedCaps p q"
  shows "ptype q = ptype p" "pcount q = pcount p" "identityOf q = identityOf p"
  using assms
  by (auto simp: sortedCaps_def identityOf_def sort_sort_id split: pattern_type.splits)

lemma patternsMatch_result:
  assumes "patternsMatch p c = (m, p', c')"
  shows "(m \<longleftrightarrow> sameIdentity p c) \<and> sortedCaps p p' \<and> sortedCaps c c'"
  using assms
  by (auto simp: patternsMatch_def sameIdentity_def sortedCaps_def Let_def sort_eq_iff_mset
           split: if_splits pattern_type.splits)

lemma findPattern_result:
  "findPattern ps c = (r, ps', c') \<Longrightarrow>
     list_all2 sortedCaps ps ps' \<and> sortedCaps c c' \<and>
     (case r of
        None \<Rightarrow> \<forall>p \<in> set ps. \<not> sameIdentity p c
      | Some i \<Rightarrow> firstMatch ps c i)"
proof (induction ps arbitrary: c r ps' c')
  case Nil
  then show ?case by (auto simp: sortedCaps_refl)
next
  case (Cons p ps)
  obtain m p1 c1 where pm: "patternsMatch p c = (m, p1, c1)"
    by (cases "patternsMatch p c") auto
  note pr = patternsMatch_result [OF pm]
  show ?case
  proof (cases m)
    case True
    with Cons.prems pm have "r = Some 0" "ps' = p1 # ps" "c' = c1"
      by auto
    with pr True show ?thesis
      by (auto simp: firstMatch_def sortedCaps_refl list_all2_same)
  next
    case False
    obtain r2 ps2 c2 where fp: "findPattern ps c1 = (r2, ps2, c2)"
      by (cases "findPattern ps c1") auto
    with Cons.prems pm False have res: "r = map_option Suc r2" "ps' = p1 # ps2" "c' = c2"
      by auto
    note ih = Cons.IH [OF fp]
    have same: "sameIdentity q c1 \<longleftrightarrow> sameIdentity q c" for q
      using pr sortedCaps_fields(3) [of c c1] by (simp add: sameIdentity_iff)
    have cc: "sortedCaps c c'"
      using pr ih res sortedCaps_trans by blast
    have l: "list_all2 sortedCaps (p # ps) ps'"
      using pr ih res by simp
    have "(case r of None \<Rightarrow> \<forall>q \<in> set (p # ps). \<not> sameIdentity q c
           | Some i \<Rightarrow> firstMatch (p # ps) c i)"
    proof (cases r2)
      case None
      with ih res pr False same show ?thesis by auto
    next
      case (Some i)
      with ih have fm: "firstMatch ps c1 i" by simp
      have "firstMatch (p # ps) c (Suc i)"
        unfolding firstMatch_def
      proof (intro conjI allI impI)
        show "Suc i < length (p # ps)" using fm by (simp add: firstMatch_def)
        show "sameIdentity ((p # ps) ! Suc i) c" using fm same by (simp add: firstMatch_def)
        fix j assume "j < Suc i"
        then show "\<not> sameIdentity ((p # ps) ! j) c"
          using fm same pr False by (cases j) (auto simp: firstMatch_def)
      qed
      with Some res show ?thesis by simp
    qed
    with cc l show ?thesis by blast
  qed
qed

lemma matched_iff:
  "(\<exists>p \<in> set ps. sameIdentity p c) \<longleftrightarrow>
     identityOf c \<noteq> None \<and> identityOf c \<in> set (map identityOf ps)"
  unfolding sameIdentity_iff set_map image_iff by metis

lemma firstMatch_ids:
  "firstMatch ps c i \<longleftrightarrow>
     i < length ps \<and> identityOf c \<noteq> None \<and> map identityOf ps ! i = identityOf c \<and>
     (\<forall>j < i. map identityOf ps ! j \<noteq> identityOf c)"
proof (cases "i < length ps")
  case True
  then have nth: "map identityOf ps ! j = identityOf (ps ! j)" if "j \<le> i" for j
    using that by simp
  show ?thesis
    unfolding firstMatch_def sameIdentity_iff
    using True nth nth_map length_map neq_if_length_neq by fastforce
next
  case False
  then show ?thesis by (simp add: firstMatch_def)
qed

lemma firstMatch_cong:
  "identityOf d = identityOf c \<Longrightarrow> firstMatch ps d i = firstMatch ps c i"
  by (simp add: firstMatch_def sameIdentity_iff)

lemma firstMatch_unique: "firstMatch ps c i \<Longrightarrow> firstMatch ps c j \<Longrightarrow> i = j"
  by (metis firstMatch_def linorder_neqE_nat)

lemma firstMatch_matched: "firstMatch ps c i \<Longrightarrow> \<exists>p \<in> set ps. sameIdentity p c"
  by (auto simp: firstMatch_def)

lemma updateExisting_fields:
  "identityOf (updateExisting e c) = identityOf e"
  "pcount (updateExisting e c) = Some (js_add (toNumber (pcount e)) (Fin 1))"
  "ptype (updateExisting e c) = ptype e"
  by (simp_all add: updateExisting_def identityOf_def Let_def split: pattern_type.splits)

lemma sortedCaps_list:
  assumes "list_all2 sortedCaps ps qs"
  shows "length qs = length ps" "map identityOf qs = map identityOf ps"
        "map pcount qs = map pcount ps" "map ptype qs = map ptype ps"
  using assms by (induction rule: list_all2_induct) (auto simp: sortedCaps_fields)

text \<open>What one round of the merge loop does to the store.\<close>

lemma mergePattern_store:
  fixes s :: learning_system and now :: int and c :: pattern
  defines "ps \<equiv> learnedPatterns s"
  defines "ps' \<equiv> learnedPatterns (mergePattern now c s)"
  shows "map identityOf ps' =
           (if \<exists>p \<in> set ps. sameIdentity p c then map identityOf ps
            else map identityOf ps @ [identityOf c])"
    and "\<And>j. j < length ps \<Longrightarrow> \<not> firstMatch ps c j \<Longrightarrow> pcount (ps' ! j) = pcount (ps ! j)"
    and "\<And>i. firstMatch ps c i \<Longrightarrow>
           pcount (ps' ! i) = Some (js_add (toNumber (pcount (ps ! i))) (Fin 1))"
proof -
  obtain r qs c' where fp: "findPattern ps c = (r, qs, c')"
    by (cases "findPattern ps c") auto
  note fr = findPattern_result [OF fp]
  from fr have len: "length qs = length ps"
    and ids: "map identityOf qs = map identityOf ps"
    and cnt: "map pcount qs = map pcount ps"
    and cid: "identityOf c' = identityOf c"
    by (simp_all add: sortedCaps_list sortedCaps_fields)
  have cntj: "pcount (qs ! j) = pcount (ps ! j)" if "j < length ps" for j
    using that cnt len by (metis nth_map)
  show "map identityOf ps' =
           (if \<exists>p \<in> set ps. sameIdentity p c then map identityOf ps
            else map identityOf ps @ [identityOf c])"
  proof (cases r)
    case None
    with fr have nm: "\<not> (\<exists>p \<in> set ps. sameIdentity p c)" by simp
    from None fp have "ps' = qs @ [c'\<lparr>pid := Some (nextId s), createdAt := Some now\<rparr>]"
      by (simp add: ps'_def ps_def mergePattern_def generateId_def)
    moreover have "identityOf (c'\<lparr>pid := Some (nextId s), createdAt := Some now\<rparr>) = identityOf c'"
      by (simp add: identityOf_def split: pattern_type.splits)
    ultimately show ?thesis using nm ids cid by simp
  next
    case (Some i)
    with fr have fm: "firstMatch ps c i" by simp
    from Some fp have "ps' = qs[i := updateExisting (qs ! i) c']"
      by (simp add: ps'_def ps_def mergePattern_def)
    then have "map identityOf ps' = (map identityOf qs)[i := identityOf (qs ! i)]"
      by (simp add: map_update updateExisting_fields)
    also have "\<dots> = map identityOf qs"
      using fm len by (metis list_update_id map_update)
    finally show ?thesis using firstMatch_matched [OF fm] ids by simp
  qed
  show "pcount (ps' ! j) = pcount (ps ! j)" if "j < length ps" "\<not> firstMatch ps c j" for j
  proof (cases r)
    case None
    from None fp have "ps' = qs @ [c'\<lparr>pid := Some (nextId s), createdAt := Some now\<rparr>]"
      by (simp add: ps'_def ps_def mergePattern_def generateId_def)
    with that len cntj show ?thesis by (simp add: nth_append)
  next
    case (Some i)
    with fr have fm: "firstMatch ps c i" by simp
    with that have "i \<noteq> j" by auto
    moreover from Some fp have "ps' = qs[i := updateExisting (qs ! i) c']"
      by (simp add: ps'_def ps_def mergePattern_def)
    ultimately show ?thesis using that cntj by simp
  qed
  show "pcount (ps' ! i) = Some (js_add (toNumber (pcount (ps ! i))) (Fin 1))"
    if "firstMatch ps c i" for i
  proof (cases r)
    case None
    with fr firstMatch_matched [OF that] show ?thesis by simp
  next
    case (Some k)
    with fr have "firstMatch ps c k" by simp
    with that have "k = i" by (simp add: firstMatch_unique)
    moreover from Some fp have "ps' = qs[k := updateExisting (qs ! k) c']"
      by (simp add: ps'_def ps_def mergePattern_def)
    moreover have "i < length ps" using that by (simp add: firstMatch_def)
    ultimately show ?thesis using len cntj by (simp add: updateExisting_fields)
  qed
qed

lemma mergePattern_length:
  "length (learnedPatterns (mergePattern now c s)) =
     length (learnedPatterns s) +
     (if \<exists>p \<in> set (learnedPatterns s). sameIdentity p c then 0 else 1)"
proof -
  have "length (learnedPatterns (mergePattern now c s)) =
        length (map identityOf (learnedPatterns (mergePattern now c s)))"
    by simp
  also have "\<dots> = length (learnedPatterns s) +
     (if \<exists>p \<in> set (learnedPatterns s). sameIdentity p c then 0 else 1)"
    by (simp only: mergePattern_store(1)) simp
  finally show ?thesis .
qed

lemma mergePattern_other_matched:
  assumes "identityOf d \<noteq> identityOf c"
  shows "(\<exists>p \<in> set (learnedPatterns (mergePattern now c s)). sameIdentity p d) \<longleftrightarrow>
         (\<exists>p \<in> set (learnedPatterns s). sameIdentity p d)"
  using assms unfolding matched_iff mergePattern_store(1) by auto

lemma mergePattern_prefix:
  assumes "j < length (learnedPatterns s)"
  shows "j < length (learnedPatterns (mergePattern now c s))"
    and "identityOf (learnedPatterns (mergePattern now c s) ! j) = identityOf (learnedPatterns s ! j)"
proof -
  show l: "j < length (learnedPatterns (mergePattern now c s))"
    using assms by (simp add: mergePattern_length)
  have "identityOf (learnedPatterns (mergePattern now c s) ! j) =
        map identityOf (learnedPatterns (mergePattern now c s)) ! j"
    using l by simp
  also have "\<dots> = map identityOf (learnedPatterns s) ! j"
    using assms by (simp only: mergePattern_store(1)) (simp add: nth_append)
  finally show "identityOf (learnedPatterns (mergePattern now c s) ! j) =
                identityOf (learnedPatterns s ! j)"
    using assms by simp
qed

lemma mergePattern_firstMatch_kept:
  assumes "firstMatch (learnedPatterns s) d i"
  shows "firstMatch (learnedPatterns (mergePattern now c s)) d i"
proof -
  from assms have i: "i < length (learnedPatterns s)"
    by (simp add: firstMatch_def)
  then have "j < length (learnedPatterns s)" if "j \<le> i" for j
    using that by simp
  then have "sameIdentity (learnedPatterns (mergePattern now c s) ! j) d \<longleftrightarrow>
             sameIdentity (learnedPatterns s ! j) d" if "j \<le> i" for j
    using that by (simp add: sameIdentity_iff mergePattern_prefix(2))
  with assms mergePattern_prefix(1) [OF i] show ?thesis
    by (simp add: firstMatch_def)
qed

text \<open>The merge loop over candidates of pairwise different identity.\<close>

lemma fold_merge_length:
  assumes "distinct (map identityOf cs)"
  shows "length (learnedPatterns (fold (mergePattern now) cs s)) =
           length (learnedPatterns s) +
           length (filter (\<lambda>c. \<forall>p \<in> set (learnedPatterns s). \<not> sameIdentity p c) cs)"
  using assms
proof (induction cs arbitrary: s)
  case Nil
  then show ?case by simp
next
  case (Cons c cs)
  let ?s1 = "mergePattern now c s"
  from Cons.prems have d: "distinct (map identityOf cs)"
    by simp
  have ne: "identityOf d \<noteq> identityOf c" if "d \<in> set cs" for d
    using Cons.prems that by (metis distinct.simps(2) image_eqI list.simps(9) set_map)
  have "filter (\<lambda>d. \<forall>p \<in> set (learnedPatterns ?s1). \<not> sameIdentity p d) cs =
        filter (\<lambda>d. \<forall>p \<in> set (learnedPatterns s). \<not> sameIdentity p d) cs"
  proof (rule filter_cong [OF refl])
    fix d assume "d \<in> set cs"
    from mergePattern_other_matched [OF ne [OF this], of now s]
    show "(\<forall>p \<in> set (learnedPatterns ?s1). \<not> sameIdentity p d) =
          (\<forall>p \<in> set (learnedPatterns s). \<not> sameIdentity p d)"
      by blast
  qed
  with Cons.IH [OF d, of ?s1] show ?case
    by (simp add: mergePattern_length)
qed

lemma fold_merge_untouched:
  assumes "i < length (learnedPatterns s)"
    and "\<And>d. d \<in> set ds \<Longrightarrow> \<not> sameIdentity (learnedPatterns s ! i) d"
  shows "pcount (learnedPatterns (fold (mergePattern now) ds s) ! i) = pcount (learnedPatterns s ! i)"
  using assms
proof (induction ds arbitrary: s)
  case Nil
  then show ?case by simp
next
  case (Cons d ds)
  let ?s1 = "mergePattern now d s"
  have nf: "\<not> firstMatch (learnedPatterns s) d i"
    using Cons.prems(2) [of d] by (simp add: firstMatch_def)
  have c1: "pcount (learnedPatterns ?s1 ! i) = pcount (learnedPatterns s ! i)"
    using mergePattern_store(2) [OF Cons.prems(1) nf] .
  have i1: "i < length (learnedPatterns ?s1)"
    using mergePattern_prefix(1) [OF Cons.prems(1)] .
  have "\<not> sameIdentity (learnedPatterns ?s1 ! i) e" if "e \<in> set ds" for e
    using Cons.prems(2) [of e] that mergePattern_prefix(2) [OF Cons.prems(1), of now d]
    by (simp add: sameIdentity_iff)
  from Cons.IH [OF i1 this] c1 show ?case
    by simp
qed

lemma fold_merge_count:
  assumes "distinct (map identityOf cs)" and "c \<in> set cs"
    and "firstMatch (learnedPatterns s) c i"
  shows "pcount (learnedPatterns (fold (mergePattern now) cs s) ! i) =
           Some (js_add (toNumber (pcount (learnedPatterns s ! i))) (Fin 1))"
  using assms
proof (induction cs arbitrary: s)
  case Nil
  then show ?case by simp
next
  case (Cons d ds)
  let ?s1 = "mergePattern now d s"
  from Cons.prems(3) have i: "i < length (learnedPatterns s)"
    and si: "identityOf (learnedPatterns s ! i) = identityOf c"
    by (simp_all add: firstMatch_def sameIdentity_iff)
  have i1: "i < length (learnedPatterns ?s1)"
    using mergePattern_prefix(1) [OF i] .
  show ?case
  proof (cases "identityOf d = identityOf c")
    case True
    then have "firstMatch (learnedPatterns s) d i"
      using Cons.prems(3) firstMatch_cong [of d c "learnedPatterns s" i] by blast
    then have c1: "pcount (learnedPatterns ?s1 ! i) =
                     Some (js_add (toNumber (pcount (learnedPatterns s ! i))) (Fin 1))"
      by (rule mergePattern_store(3))
    have "\<not> sameIdentity (learnedPatterns ?s1 ! i) e" if "e \<in> set ds" for e
    proof -
      from that Cons.prems(1) True have "identityOf e \<noteq> identityOf c"
        by (metis distinct.simps(2) image_eqI list.simps(9) set_map)
      then show ?thesis
        using mergePattern_prefix(2) [OF i, of now d] si by (simp add: sameIdentity_iff)
    qed
    from fold_merge_untouched [OF i1 this] c1 show ?thesis
      by simp
  next
    case False
    with Cons.prems(2) have cin: "c \<in> set ds"
      by auto
    from Cons.prems(1) have dd: "distinct (map identityOf ds)"
      by simp
    have nf: "\<not> firstMatch (learnedPatterns s) d i"
      using False si by (simp add: firstMatch_def sameIdentity_iff)
    have c1: "pcount (learnedPatterns ?s1 ! i) = pcount (learnedPatterns s ! i)"
      using mergePattern_store(2) [OF i nf] .
    from Cons.IH [OF dd cin mergePattern_firstMatch_kept [OF Cons.prems(3)]] c1
    show ?thesis by simp
  qed
qed

lemma noDuplicatePatterns_keys:
  "noDuplicatePatterns ps = noRepeatedKey (map identityOf ps)"
  unfolding noDuplicatePatterns_def noRepeatedKey_def sameIdentity_iff
  by (auto simp del: not_None_eq)

lemma noRepeatedKey_snoc:
  assumes "noRepeatedKey ks" and "k = None \<or> k \<notin> set ks"
  shows "noRepeatedKey (ks @ [k])"
  unfolding noRepeatedKey_def
proof (intro allI impI)
  fix i j
  assume i: "i < length (ks @ [k])" and j: "j < length (ks @ [k])" and ij: "i \<noteq> j"
    and eq: "(ks @ [k]) ! i = (ks @ [k]) ! j"
  consider "i < length ks" "j < length ks" | "i < length ks" "j = length ks"
    | "i = length ks" "j < length ks"
    using i j ij by (auto simp: less_Suc_eq)
  then show "(ks @ [k]) ! i = None"
  proof cases
    case 1
    with assms(1) ij eq show ?thesis
      by (simp add: noRepeatedKey_def nth_append)
  next
    case 2
    with eq have "ks ! i = k" by (simp add: nth_append)
    with 2 assms(2) show ?thesis
      by (metis nth_append nth_mem)
  next
    case 3
    with eq have "ks ! j = k" by (simp add: nth_append)
    with 3 assms(2) eq show ?thesis
      by (metis nth_append nth_mem)
  qed
qed

lemma mergePattern_noDuplicate:
  assumes "noDuplicatePatterns (learnedPatterns s)"
  shows "noDuplicatePatterns (learnedPatterns (mergePattern now c s))"
proof (cases "\<exists>p \<in> set (learnedPatterns s). sameIdentity p c")
  case True
  with assms show ?thesis
    by (simp only: noDuplicatePatterns_keys mergePattern_store(1) if_True)
next
  case False
  then have "identityOf c = None \<or> identityOf c \<notin> set (map identityOf (learnedPatterns s))"
    by (simp only: matched_iff) blast
  from noRepeatedKey_snoc [OF _ this] assms False show ?thesis
    by (simp only: noDuplicatePatterns_keys mergePattern_store(1) if_False)
qed

lemma fold_merge_noDuplicate:
  "noDuplicatePatterns (learnedPatterns s) \<Longrightarrow>
     noDuplicatePatterns (learnedPatterns (fold (mergePattern now) cs s))"
  by (induction cs arbitrary: s) (simp_all add: mergePattern_noDuplicate)

lemma candidatePatterns_distinct:
  "distinct (map identityOf (candidatePatterns r))"
  by (simp add: candidatePatterns_def toolSequenceCandidate_def capabilityCandidate_def
        durationCandidate_def identityOf_def newPattern_def Let_def)

lemma candidatePatterns_counted:
  "c \<in> set (candidatePatterns r) \<Longrightarrow> countedPattern c"
  by (auto simp: candidatePatterns_def toolSequenceCandidate_def capabilityCandidate_def
        durationCandidate_def countedPattern_def newPattern_def Let_def split: if_splits)

lemma recordSuccess_store:
  "learnedPatterns (snd (recordSuccess now w sys)) =
     learnedPatterns
       (fold (mergePattern now) (candidatePatterns (successRecord (nextId sys) now w))
          (sys\<lparr>nextId := Suc (nextId sys),
               successfulWorkflows := successfulWorkflows sys @
                 [successRecord (nextId sys) now w]\<rparr>))"
  by (simp add: recordSuccess_def generateId_def extractPatternsFromWorkflow_def Let_def)

lemma recordFailure_store:
  "learnedPatterns (snd (recordFailure now fl sys)) = learnedPatterns sys \<or>
   (\<exists>p. learnedPatterns (snd (recordFailure now fl sys)) = learnedPatterns sys @ [p] \<and>
        ptype p = AvoidanceRule)"
  by (auto simp: recordFailure_def generateId_def learnFromFailure_def Let_def newPattern_def
           split: sum.splits)

lemma recordFailure_noDuplicate:
  assumes "noDuplicatePatterns (learnedPatterns sys)"
  shows "noDuplicatePatterns (learnedPatterns (snd (recordFailure now fl sys)))"
proof -
  from recordFailure_store [of now fl sys]
  consider "learnedPatterns (snd (recordFailure now fl sys)) = learnedPatterns sys"
    | p where "learnedPatterns (snd (recordFailure now fl sys)) = learnedPatterns sys @ [p]"
        "ptype p = AvoidanceRule"
    by blast
  then show ?thesis
  proof cases
    case 1
    with assms show ?thesis by simp
  next
    case 2
    then have "identityOf p = None"
      by (simp add: identityOf_def)
    with noRepeatedKey_snoc [of "map identityOf (learnedPatterns sys)" "identityOf p"] assms 2
    show ?thesis
      by (simp add: noDuplicatePatterns_keys)
  qed
qed

lemma sortedCaps_counted: "sortedCaps p q \<Longrightarrow> countedPattern p \<Longrightarrow> countedPattern q"
  by (auto simp: sortedCaps_def countedPattern_def)

lemma sortedCaps_list_counted:
  "list_all2 sortedCaps ps qs \<Longrightarrow> \<forall>p \<in> set ps. countedPattern p \<Longrightarrow>
     \<forall>q \<in> set qs. countedPattern q"
  by (induction rule: list_all2_induct) (auto intro: sortedCaps_counted)

lemma updateExisting_counted: "countedPattern e \<Longrightarrow> countedPattern (updateExisting e c)"
  by (auto simp: countedPattern_def updateExisting_fields)

lemma mergePattern_counted:
  assumes "\<forall>p \<in> set (learnedPatterns s). countedPattern p" and "countedPattern c"
  shows "\<forall>p \<in> set (learnedPatterns (mergePattern now c s)). countedPattern p"
proof -
  obtain r qs c' where fp: "findPattern (learnedPatterns s) c = (r, qs, c')"
    by (cases "findPattern (learnedPatterns s) c") auto
  note fr = findPattern_result [OF fp]
  from fr assms have qs: "\<forall>q \<in> set qs. countedPattern q" and c': "countedPattern c'"
    using sortedCaps_list_counted sortedCaps_counted by blast+
  show ?thesis
  proof (cases r)
    case None
    from c' have "countedPattern (c'\<lparr>pid := Some (nextId s), createdAt := Some now\<rparr>)"
      by (simp add: countedPattern_def)
    with None fp qs show ?thesis
      by (simp add: mergePattern_def generateId_def)
  next
    case (Some i)
    with fr have "i < length qs"
      by (auto simp: firstMatch_def dest: list_all2_lengthD)
    with qs have "countedPattern (updateExisting (qs ! i) c')"
      by (simp add: updateExisting_counted)
    with qs have "\<forall>q \<in> set (qs[i := updateExisting (qs ! i) c']). countedPattern q"
      using set_update_subset_insert [of qs i] by blast
    with Some fp show ?thesis
      by (simp add: mergePattern_def)
  qed
qed

lemma fold_merge_counted:
  "\<forall>p \<in> set (learnedPatterns s). countedPattern p \<Longrightarrow> \<forall>c \<in> set cs. countedPattern c \<Longrightarrow>
     \<forall>p \<in> set (learnedPatterns (fold (mergePattern now) cs s)). countedPattern p"
proof (induction cs arbitrary: s)
  case Nil
  then show ?case by simp
next
  case (Cons c cs)
  from Cons.prems mergePattern_counted [of s c now]
  have "\<forall>p \<in> set (learnedPatterns (mergePattern now c s)). countedPattern p"
    by simp
  from Cons.IH [OF this] Cons.prems(2) show ?case
    by simp
qed

lemma reachable_invariants:
  "reachable sys \<Longrightarrow>
     noDuplicatePatterns (learnedPatterns sys) \<and>
     (\<forall>p \<in> set (learnedPatterns sys). countedPattern p)"
proof (induction rule: reachable.induct)
  case reachable_initial
  show ?case
    by (simp add: initialSystem_def noDuplicatePatterns_def)
next
  case (reachable_success sys now w)
  let ?s2 = "sys\<lparr>nextId := Suc (nextId sys),
                 successfulWorkflows := successfulWorkflows sys @
                   [successRecord (nextId sys) now w]\<rparr>"
  let ?cs = "candidatePatterns (successRecord (nextId sys) now w)"
  from reachable_success.IH have nd: "noDuplicatePatterns (learnedPatterns ?s2)"
    and cnt: "\<forall>p \<in> set (learnedPatterns ?s2). countedPattern p"
    by simp_all
  have "\<forall>c \<in> set ?cs. countedPattern c"
    using candidatePatterns_counted by blast
  from fold_merge_noDuplicate [OF nd, of now ?cs] fold_merge_counted [OF cnt this, of now]
  show ?case
    by (simp only: recordSuccess_store)
next
  case (reachable_failure sys now fl)
  from recordFailure_store [of now fl sys] reachable_failure.IH
  have "\<forall>p \<in> set (learnedPatterns (snd (recordFailure now fl sys))). countedPattern p"
    by (auto simp: countedPattern_def)
  with reachable_failure.IH recordFailure_noDuplicate show ?case
    by blast
qed

text \<open>
  C1, as stated, fails: the candidates of one workflow are merged one by one, so a
  candidate that matches a stored pattern does not keep the store from growing by another
  candidate of the same call. After the two-step "scrape site" workflow has been recorded
  once, recording it again with a duration finds its tool-sequence candidate in the store
  and still appends a duration-estimate pattern: the store goes from one entry to two.
\<close>

theorem recordSuccess_second_candidate_counterexample:
  "ptype (hd (candidatePatterns (successRecord 2 1 (scrapeWorkflow (Some (Fin 5000)))))) =
     ToolSequence \<and>
   sameIdentity (hd (learnedPatterns scrapedOnce))
     (hd (candidatePatterns (successRecord 2 1 (scrapeWorkflow (Some (Fin 5000)))))) \<and>
   length (learnedPatterns scrapedOnce) = 1 \<and>
   length (learnedPatterns (snd (recordSuccess 1 (scrapeWorkflow (Some (Fin 5000))) scrapedOnce)))
     = 2"
  by code_simp

text \<open>
  C1, amended. For every call of \<^verbatim>\<open>recordSuccess\<close>, with \<open>cs\<close> the candidates derived
  from the workflow:
  \<^item> a candidate whose identifying fields equal those of a stored pattern adds no entry:
    the store grows by exactly the number of candidates that match no stored pattern;
  \<^item> for a tool-sequence or capability-combination candidate, the first stored pattern
    with its identifying fields has its count raised by exactly one, when that count is
    a number;
  \<^item> the identifying fields of two capability combinations are equal when the lists
    are equal as multisets, which for lists without repetition is set equality;
  \<^item> a store without two entries of equal identifying fields stays so; and in every
    state reachable from the empty system no two stored patterns have equal identifying
    fields, and every tool-sequence and capability-combination pattern holds a number
    as its count.
\<close>

theorem recordSuccess_merges_candidates:
  fixes now :: int and w :: workflow and sys :: learning_system
  defines "ps \<equiv> learnedPatterns sys"
  defines "ps' \<equiv> learnedPatterns (snd (recordSuccess now w sys))"
  defines "cs \<equiv> candidatePatterns (successRecord (nextId sys) now w)"
  shows "length ps' = length ps + length (filter (\<lambda>c. \<forall>p \<in> set ps. \<not> sameIdentity p c) cs) \<and>
         (\<forall>c \<in> set cs. \<forall>i k.
            (ptype c = ToolSequence \<or> ptype c = CapabilityCombination) \<and>
            firstMatch ps c i \<and> pcount (ps ! i) = Some (Fin k) \<longrightarrow>
              pcount (ps' ! i) = Some (Fin (k + 1))) \<and>
         (\<forall>p q. ptype p = CapabilityCombination \<and> ptype q = CapabilityCombination \<and>
                distinct (capabilities_of p) \<and> distinct (capabilities_of q) \<longrightarrow>
                sameIdentity p q = (set (capabilities_of p) = set (capabilities_of q))) \<and>
         (noDuplicatePatterns ps \<longrightarrow> noDuplicatePatterns ps') \<and>
         (reachable sys \<longrightarrow>
            noDuplicatePatterns ps \<and>
            (\<forall>p \<in> set ps. ptype p = ToolSequence \<or> ptype p = CapabilityCombination \<longrightarrow>
               (\<exists>k. pcount p = Some (Fin k))))"
proof -
  let ?s2 = "sys\<lparr>nextId := Suc (nextId sys),
                 successfulWorkflows := successfulWorkflows sys @
                   [successRecord (nextId sys) now w]\<rparr>"
  have st: "ps' = learnedPatterns (fold (mergePattern now) cs ?s2)"
    unfolding ps'_def cs_def by (rule recordSuccess_store)
  have s2: "learnedPatterns ?s2 = ps"
    by (simp add: ps_def)
  have d: "distinct (map identityOf cs)"
    unfolding cs_def by (rule candidatePatterns_distinct)
  have a: "length ps' = length ps + length (filter (\<lambda>c. \<forall>p \<in> set ps. \<not> sameIdentity p c) cs)"
    using fold_merge_length [OF d, of now ?s2] by (simp only: st s2)
  have b: "pcount (ps' ! i) = Some (Fin (k + 1))"
    if "c \<in> set cs" "firstMatch ps c i" "pcount (ps ! i) = Some (Fin k)" for c i k
  proof -
    from that(2) have "firstMatch (learnedPatterns ?s2) c i"
      by (simp only: s2)
    from fold_merge_count [OF d that(1) this, of now] that(3) show ?thesis
      by (simp only: st s2) simp
  qed
  have c: "noDuplicatePatterns ps'" if "noDuplicatePatterns ps"
    using fold_merge_noDuplicate [of ?s2 now cs] that by (simp only: st s2)
  have e: "noDuplicatePatterns ps \<and>
           (\<forall>p \<in> set ps. ptype p = ToolSequence \<or> ptype p = CapabilityCombination \<longrightarrow>
               (\<exists>k. pcount p = Some (Fin k)))"
    if "reachable sys"
    using reachable_invariants [OF that] by (simp add: ps_def countedPattern_def)
  have f: "sameIdentity p q = (set (capabilities_of p) = set (capabilities_of q))"
    if "ptype p = CapabilityCombination" "ptype q = CapabilityCombination"
       "distinct (capabilities_of p)" "distinct (capabilities_of q)" for p q
    using that by (simp add: sameIdentity_def set_eq_iff_mset_eq_distinct)
  from a b c e f show ?thesis
    by blast
qed

theorem recordSuccess_merges_candidates_witness:
  "reachable scrapedOnce \<and>
   ptype (hd (candidatePatterns
     (successRecord (nextId scrapedOnce) 1 (scrapeWorkflow (Some (Fin 5000)))))) = ToolSequence \<and>
   firstMatch (learnedPatterns scrapedOnce)
     (hd (candidatePatterns
       (successRecord (nextId scrapedOnce) 1 (scrapeWorkflow (Some (Fin 5000)))))) 0 \<and>
   pcount (learnedPatterns scrapedOnce ! 0) = Some (Fin 1) \<and>
   pcount (learnedPatterns
     (snd (recordSuccess 1 (scrapeWorkflow (Some (Fin 5000))) scrapedOnce)) ! 0) = Some (Fin 2) \<and>
   length (learnedPatterns
     (snd (recordSuccess 1 (scrapeWorkflow (Some (Fin 5000))) scrapedOnce))) = 2 \<and>
   noDuplicatePatterns (learnedPatterns
     (snd (recordSuccess 1 (scrapeWorkflow (Some (Fin 5000))) scrapedOnce)))"
proof -
  let ?w = "scrapeWorkflow (Some (Fin 5000))"
  let ?cs = "candidatePatterns (successRecord (nextId scrapedOnce) 1 ?w)"
  let ?ps = "learnedPatterns scrapedOnce"
  let ?ps' = "learnedPatterns (snd (recordSuccess 1 ?w scrapedOnce))"
  have r: "reachable scrapedOnce"
    unfolding scrapedOnce_def by (rule reachable_success [OF reachable_initial])
  have h1: "ptype (hd ?cs) = ToolSequence"
    by code_simp
  have "length ?cs = 2"
    by code_simp
  then have "?cs \<noteq> []"
    by auto
  then have h2: "hd ?cs \<in> set ?cs"
    by simp
  have "length ?ps = 1" and "sameIdentity (?ps ! 0) (hd ?cs)"
    by code_simp+
  then have h3: "firstMatch ?ps (hd ?cs) 0"
    by (simp add: firstMatch_def)
  have h4: "pcount (?ps ! 0) = Some (Fin 1)"
    by code_simp
  have len: "length ?ps' = 2"
    by code_simp
  note main = recordSuccess_merges_candidates [where sys = scrapedOnce and now = 1 and w = ?w]
  from main h1 h2 h3 h4 have "pcount (?ps' ! 0) = Some (Fin (1 + 1))"
    by blast
  then have cnt: "pcount (?ps' ! 0) = Some (Fin 2)"
    by simp
  from main r have "noDuplicatePatterns ?ps'"
    by blast
  with r h1 h3 h4 cnt len show ?thesis
    by blast
qed

end
